theory Spec2Isabelle
  imports Main "HOL-Library.Word"
begin

section \<open>Machine types, errors, time and cancellation\<close>

text \<open>
  The Go types of the three packages, on a 64-bit target:
  \<^item> \<open>time.Duration\<close> is \<open>int64\<close> nanoseconds, \<open>int\<close> and \<open>uint\<close> are 64 bits wide.
    All three are \<open>64 word\<close>; \<open>+\<close> and \<open>*\<close> wrap as Go's do, \<open>sint\<close> reads a signed
    value and \<open>unat\<close> an unsigned one.
  \<^item> \<open>time.Time\<close> is an instant in nanoseconds, an unbounded \<open>int\<close>.
  \<^item> An \<open>error\<close> interface value is \<open>error option\<close>, \<open>None\<close> being \<open>nil\<close>.
\<close>

type_synonym duration = "64 word"
type_synonym goint = "64 word"
type_synonym uint = "64 word"
type_synonym instant = int

datatype error = Canceled | DeadlineExceeded | Failure string

definition Millisecond :: duration where
  "Millisecond = 1000000"

definition Second :: duration where
  "Second = 1000000000"

definition Minute :: duration where
  "Minute = 60 * Second"

definition Hour :: duration where
  "Hour = 60 * Minute"

text \<open>\<open>Time.Add\<close> and \<open>Time.After\<close>.\<close>

definition Add :: "instant \<Rightarrow> duration \<Rightarrow> instant" where
  "Add t d = t + sint d"

definition After :: "instant \<Rightarrow> instant \<Rightarrow> bool" where
  "After t u = (u < t)"

text \<open>
  A \<open>context.Context\<close> is the instant at which its \<open>Done\<close> channel is closed (\<open>None\<close>
  for a context that is never cancelled, such as \<open>context.Background()\<close>) and the error
  that \<open>Err\<close> reports from then on: \<open>Canceled\<close> after an explicit cancel,
  \<open>DeadlineExceeded\<close> after a deadline.
\<close>

record ctx =
  doneAt :: "instant option"
  cerr :: error

definition ctx_Err :: "ctx \<Rightarrow> instant \<Rightarrow> error option" where
  "ctx_Err c t =
     (case doneAt c of
        None \<Rightarrow> None
      | Some f \<Rightarrow> if f \<le> t then Some (cerr c) else None)"

text \<open>\<open>context.Background()\<close> is never cancelled; its error is never read.\<close>

definition Background :: ctx where
  "Background = \<lparr>doneAt = None, cerr = Canceled\<rparr>"

text \<open>
  Both loops of the program block in
  \<^verbatim>\<open>select { case <-time.After(d): case <-ctx.Done(): return ctx.Err() }\<close>.
  Entered at instant \<open>t\<close>, the timer is ready at \<open>t + max 0 d\<close> (a non-positive duration
  fires at once) and the \<open>Done\<close> channel at \<open>max t f\<close> for a context cancelled at \<open>f\<close>.
  The case that is ready first is taken. When both are ready at the same instant Go picks
  one at random: the choice is the parameter \<open>sel\<close>, and every theorem below holds for
  all of them.
\<close>

datatype woke = Timer | Done

definition select_after :: "(instant \<Rightarrow> bool) \<Rightarrow> ctx \<Rightarrow> duration \<Rightarrow> instant \<Rightarrow> woke \<times> instant" where
  "select_after sel c d t =
     (let T = t + max 0 (sint d) in
      case doneAt c of
        None \<Rightarrow> (Timer, T)
      | Some f \<Rightarrow>
          (let D = max t f in
           if D < T then (Done, D)
           else if T < D then (Timer, T)
           else if sel T then (Timer, T) else (Done, T)))"

section \<open>Package retry\<close>

record Retryer =
  maxRetries :: uint
  baseDelay :: duration
  maxDelay :: duration

definition NewRetryer :: "uint \<Rightarrow> duration \<Rightarrow> duration \<Rightarrow> Retryer" where
  "NewRetryer mr bd md = \<lparr>maxRetries = mr, baseDelay = bd, maxDelay = md\<rparr>"

text \<open>
  \<^verbatim>\<open>delay := r.baseDelay * (1 << attempt); return min(delay, r.maxDelay)\<close>.
  The constant \<open>1\<close> takes the type of \<open>r.baseDelay\<close>, so the shift and the product are
  \<open>int64\<close> operations: a shift count of 64 or more gives 0 and the product wraps.
  The built-in \<open>min\<close> compares signed values.
\<close>

definition calculateBackoff :: "Retryer \<Rightarrow> uint \<Rightarrow> duration" where
  "calculateBackoff r attempt =
     (let delay = baseDelay r * push_bit (unat attempt) 1
      in if sint delay \<le> sint (maxDelay r) then delay else maxDelay r)"

text \<open>
  The attempt function is a closure over mutable state: it maps the clock and its state
  to its two results and the new clock and state, or to \<open>None\<close> when it never returns.
\<close>

type_synonym 's attemptfn = "instant \<times> 's \<Rightarrow> ((bool \<times> error option) \<times> (instant \<times> 's)) option"

text \<open>
  \<^verbatim>\<open>for attempt := range r.maxRetries + 1 { ... }; return lastErr\<close>: \<open>n\<close> is the value of
  \<open>r.maxRetries + 1\<close>, computed once in \<open>uint\<close>, and \<open>attempt\<close> runs from 0 below \<open>n\<close>.
\<close>

function Do_loop ::
  "(instant \<Rightarrow> bool) \<Rightarrow> Retryer \<Rightarrow> ctx \<Rightarrow> 's attemptfn \<Rightarrow> uint \<Rightarrow> uint \<Rightarrow> error option
     \<Rightarrow> instant \<times> 's \<Rightarrow> (error option \<times> (instant \<times> 's)) option" where
  "Do_loop sel r c fn n attempt lastErr s =
     (if attempt < n then
        (case ctx_Err c (fst s) of
           Some e \<Rightarrow> Some (Some e, s)
         | None \<Rightarrow>
             (case fn s of
                None \<Rightarrow> None
              | Some ((shouldRetry, err), s1) \<Rightarrow>
                  if \<not> shouldRetry then Some (err, s1)
                  else if attempt < maxRetries r then
                    (case select_after sel c (calculateBackoff r attempt) (fst s1) of
                       (Timer, t') \<Rightarrow> Do_loop sel r c fn n (attempt + 1) err (t', snd s1)
                     | (Done, t') \<Rightarrow> Some (ctx_Err c t', (t', snd s1)))
                  else Do_loop sel r c fn n (attempt + 1) err s1))
      else Some (lastErr, s))"
  by pat_completeness auto
termination
proof -
  have step: "unat n - unat (a + 1) < unat n - unat a" if "a < n" for a n :: uint
  proof -
    have "unat a < unat n"
      using that by (simp add: word_less_nat_alt)
    moreover have "unat n < 2 ^ 64"
      using unsigned_less [of n, where 'a = nat] by simp
    ultimately have "unat a + unat (1 :: uint) < 2 ^ LENGTH(64)"
      by simp
    then have "unat (a + 1) = unat a + unat (1 :: uint)"
      by (simp only: unat_add_lem)
    with \<open>unat a < unat n\<close> show ?thesis
      by simp
  qed
  show ?thesis
    by (relation "measure (\<lambda>(sel, r, c, fn, n, attempt, lastErr, s). unat n - unat attempt)")
      (auto simp: step)
qed

definition Do ::
  "(instant \<Rightarrow> bool) \<Rightarrow> Retryer \<Rightarrow> ctx \<Rightarrow> 's attemptfn \<Rightarrow> instant \<times> 's
     \<Rightarrow> (error option \<times> (instant \<times> 's)) option" where
  "Do sel r c fn s = Do_loop sel r c fn (maxRetries r + 1) 0 None s"

declare Do_loop.simps [simp del]

section \<open>Package ratelimit\<close>

record RateLimiter =
  secCount :: goint
  minCount :: goint
  hrCount :: goint
  secReset :: instant
  minReset :: instant
  hrReset :: instant
  requestsPerSecond :: goint
  requestsPerMinute :: goint
  requestsPerHour :: goint

text \<open>\<open>now\<close> is the value of \<open>time.Now().UTC()\<close> at the call.\<close>

definition NewRateLimiter :: "goint \<Rightarrow> goint \<Rightarrow> goint \<Rightarrow> instant \<Rightarrow> RateLimiter" where
  "NewRateLimiter rps rpm rph now =
     \<lparr>secCount = 0, minCount = 0, hrCount = 0,
      secReset = Add now Second, minReset = Add now Minute, hrReset = Add now Hour,
      requestsPerSecond = rps, requestsPerMinute = rpm, requestsPerHour = rph\<rparr>"

definition resetIfNeeded :: "instant \<Rightarrow> RateLimiter \<Rightarrow> RateLimiter" where
  "resetIfNeeded now r =
     (let r1 = (if After now (secReset r)
                then r\<lparr>secCount := 0, secReset := Add now (1 * Second)\<rparr> else r);
          r2 = (if After now (minReset r1)
                then r1\<lparr>minCount := 0, minReset := Add now (1 * Minute)\<rparr> else r1);
          r3 = (if After now (hrReset r2)
                then r2\<lparr>hrCount := 0, hrReset := Add now (1 * Hour)\<rparr> else r2)
      in r3)"

text \<open>\<open>canProceed\<close> mutates the limiter (the lazy reset) and returns the admission test.\<close>

definition canProceed :: "instant \<Rightarrow> RateLimiter \<Rightarrow> bool \<times> RateLimiter" where
  "canProceed now r =
     (let r' = resetIfNeeded now r
      in (sint (secCount r') < sint (requestsPerSecond r') \<and>
          sint (minCount r') < sint (requestsPerMinute r') \<and>
          sint (hrCount r') < sint (requestsPerHour r'), r'))"

definition increment :: "RateLimiter \<Rightarrow> RateLimiter" where
  "increment r =
     r\<lparr>secCount := secCount r + 1, minCount := minCount r + 1, hrCount := hrCount r + 1\<rparr>"

text \<open>
  \<open>Wait\<close> is an unbounded \<open>for\<close> loop: \<open>None\<close> is the call that never returns. The state
  is the clock and the limiter; one poll sleeps \<open>100 * time.Millisecond\<close>.
\<close>

partial_function (option) Wait ::
  "(instant \<Rightarrow> bool) \<Rightarrow> ctx \<Rightarrow> instant \<times> RateLimiter
     \<Rightarrow> (error option \<times> (instant \<times> RateLimiter)) option" where
  "Wait sel c s =
     (case ctx_Err c (fst s) of
        Some e \<Rightarrow> Some (Some e, s)
      | None \<Rightarrow>
          (case canProceed (fst s) (snd s) of
             (ok, r1) \<Rightarrow>
               if ok then Some (None, (fst s, increment r1))
               else
                 (case select_after sel c (100 * Millisecond) (fst s) of
                    (Timer, t') \<Rightarrow> Wait sel c (t', r1)
                  | (Done, t') \<Rightarrow> Some (ctx_Err c t', (t', r1)))))"

text \<open>A sequence of sequential \<open>Wait\<close> calls, each with its context and the clock at its start.\<close>

fun Waits ::
  "(instant \<Rightarrow> bool) \<Rightarrow> RateLimiter \<Rightarrow> (ctx \<times> instant) list \<Rightarrow> RateLimiter option" where
  "Waits sel r [] = Some r"
| "Waits sel r ((c, t) # calls) =
     (case Wait sel c (t, r) of
        None \<Rightarrow> None
      | Some (e, (t', r')) \<Rightarrow> Waits sel r' calls)"

section \<open>Package httpclient\<close>

text \<open>
  A response carries its status code, its body and whether the body has been closed.
  The transport (\<open>http.Client.Do\<close>) returns a response and no error, or an error, with
  which a response may come that the caller is to ignore; it never returns neither.
\<close>

record response =
  StatusCode :: goint
  Body :: string
  closed :: bool

datatype roundtrip = Responded response | Failed error "response option"

record ('q, 't) Client =
  httpClient :: "'q \<Rightarrow> instant \<times> 't \<Rightarrow> roundtrip \<times> (instant \<times> 't)"
  retryer :: Retryer
  retryOnStatus :: "uint list"

text \<open>
  The state the closure of \<open>Client.Do\<close> works on: the captured variable \<open>resp\<close>, the
  limiter behind \<open>c.limiter\<close> and the state of the transport.
\<close>

record 't closure =
  resp :: "response option"
  limiter :: RateLimiter
  tstate :: 't

text \<open>
  \<^verbatim>\<open>for _, status := range c.retryOnStatus { if resp.StatusCode == int(status) {...} }\<close>;
  the conversion \<open>int(status)\<close> keeps the 64 bits. A \<open>nil\<close> slice is the empty list.
\<close>

primrec statusListed :: "goint \<Rightarrow> uint list \<Rightarrow> bool" where
  "statusListed code [] = False"
| "statusListed code (status # rest) = (if code = status then True else statusListed code rest)"

definition attemptFn ::
  "(instant \<Rightarrow> bool) \<Rightarrow> ('q, 't) Client \<Rightarrow> ctx \<Rightarrow> 'q \<Rightarrow> 't closure attemptfn" where
  "attemptFn sel cl c req s =
     (case Wait sel c (fst s, limiter (snd s)) of
        None \<Rightarrow> None
      | Some (Some e, (t1, l1)) \<Rightarrow> Some ((False, Some e), (t1, (snd s)\<lparr>limiter := l1\<rparr>))
      | Some (None, (t1, l1)) \<Rightarrow>
          (case httpClient cl req (t1, tstate (snd s)) of
             (Failed e r, (t2, ts)) \<Rightarrow>
               Some ((True, Some e), (t2, \<lparr>resp = r, limiter = l1, tstate = ts\<rparr>))
           | (Responded r, (t2, ts)) \<Rightarrow>
               if statusListed (StatusCode r) (retryOnStatus cl)
               then Some ((True, None),
                          (t2, \<lparr>resp = Some (r\<lparr>closed := True\<rparr>), limiter = l1, tstate = ts\<rparr>))
               else Some ((False, None), (t2, \<lparr>resp = Some r, limiter = l1, tstate = ts\<rparr>))))"

text \<open>
  \<open>Client.Do\<close>: \<open>resp\<close> starts as \<open>nil\<close>; the result is \<open>(resp, err)\<close> together with the
  clock, the limiter and the transport as the call leaves them.
\<close>

definition Client_Do ::
  "(instant \<Rightarrow> bool) \<Rightarrow> ('q, 't) Client \<Rightarrow> ctx \<Rightarrow> 'q \<Rightarrow> instant \<times> RateLimiter \<times> 't
     \<Rightarrow> ((response option \<times> error option) \<times> (instant \<times> RateLimiter \<times> 't)) option" where
  "Client_Do sel cl c req s =
     (case s of (t, l, ts) \<Rightarrow>
        (case Do sel (retryer cl) c (attemptFn sel cl c req)
                (t, \<lparr>resp = None, limiter = l, tstate = ts\<rparr>) of
           None \<Rightarrow> None
         | Some (e, (t', st)) \<Rightarrow> Some ((resp st, e), (t', limiter st, tstate st))))"

subsection \<open>The test doubles of the packages' tests\<close>

text \<open>
  The tests count calls inside the attempt function (\<^verbatim>\<open>attempts++\<close>). \<open>traced\<close> does the
  same to any attempt function: it appends what each call returns to a log in the state.
\<close>

definition traced :: "'s attemptfn \<Rightarrow> ((bool \<times> error option) list \<times> 's) attemptfn" where
  "traced fn s =
     (case s of (t, (log, u)) \<Rightarrow>
        (case fn (t, u) of
           None \<Rightarrow> None
         | Some (res, (t', u')) \<Rightarrow> Some (res, (t', (log @ [res], u')))))"

text \<open>\<open>recorded\<close> does it to a transport: every call appends its result to a log.\<close>

definition recorded ::
  "('q \<Rightarrow> instant \<times> 't \<Rightarrow> roundtrip \<times> (instant \<times> 't))
     \<Rightarrow> 'q \<Rightarrow> instant \<times> (roundtrip list \<times> 't) \<Rightarrow> roundtrip \<times> (instant \<times> (roundtrip list \<times> 't))" where
  "recorded tr req s =
     (case s of (t, (log, ts)) \<Rightarrow>
        (case tr req (t, ts) of
           (res, (t', ts')) \<Rightarrow> (res, (t', (log @ [res], ts')))))"

text \<open>
  \<open>mockTransport\<close> of the client's tests: canned responses handed out in order, and a
  counter of the calls behind the pointer \<open>attempts\<close> (\<open>None\<close> for a \<open>nil\<close> pointer).
\<close>

record mockResponse =
  statusCode :: goint
  body :: string
  mockErr :: "error option"

record mockTransport =
  attempts :: "goint option"
  responses :: "mockResponse list"
  index :: nat

definition RoundTrip :: "mockTransport \<Rightarrow> roundtrip \<times> mockTransport" where
  "RoundTrip m =
     (let m1 = m\<lparr>attempts := map_option (\<lambda>n. n + 1) (attempts m)\<rparr> in
      if index m1 \<ge> length (responses m1)
      then (Failed (Failure ''no more mock responses'') None, m1)
      else
        (let response = responses m1 ! index m1;
             m2 = m1\<lparr>index := index m1 + 1\<rparr>
         in case mockErr response of
              Some e \<Rightarrow> (Failed e None, m2)
            | None \<Rightarrow>
                (Responded \<lparr>StatusCode = statusCode response, Body = body response,
                            closed = False\<rparr>, m2)))"

text \<open>
  \<open>http.Client{Transport: m}.Do\<close> for the statuses of the tests (no redirect): one
  \<open>RoundTrip\<close>, which takes no time. The client hands an error of \<open>RoundTrip\<close> on
  wrapped in a \<open>*url.Error\<close>; the model keeps the error as it is.
\<close>

definition mockClient :: "'q \<Rightarrow> instant \<times> mockTransport \<Rightarrow> roundtrip \<times> (instant \<times> mockTransport)" where
  "mockClient req s = (case RoundTrip (snd s) of (res, m') \<Rightarrow> (res, (fst s, m')))"

text \<open>\<open>NewClient\<close>, for a configuration that names its transport.\<close>

record RateLimitConfig =
  RequestsPerSecond :: goint
  RequestsPerMinute :: goint
  RequestsPerHour :: goint

record RetryConfig =
  MaxRetries :: uint
  BaseDelay :: duration
  MaxDelay :: duration
  RetryOnStatus :: "uint list"

definition NewClient ::
  "('q \<Rightarrow> instant \<times> 't \<Rightarrow> roundtrip \<times> (instant \<times> 't)) \<Rightarrow> RateLimitConfig \<Rightarrow> RetryConfig
     \<Rightarrow> instant \<Rightarrow> ('q, 't) Client \<times> RateLimiter" where
  "NewClient tr rl rc now =
     (\<lparr>httpClient = tr,
       retryer = NewRetryer (MaxRetries rc) (BaseDelay rc) (MaxDelay rc),
       retryOnStatus = RetryOnStatus rc\<rparr>,
      NewRateLimiter (RequestsPerSecond rl) (RequestsPerMinute rl) (RequestsPerHour rl) now)"

subsection \<open>Goroutines sharing one limiter\<close>

text \<open>
  \<open>Wait\<close> takes the mutex twice: \<open>canProceed\<close> locks, tests and unlocks, then
  \<open>increment\<close> locks, counts and unlocks. With the lock held a method body is one atomic
  step; between the two the lock is free. A goroutine inside \<open>Wait\<close> (with a context that
  is never cancelled) is therefore about to call \<open>canProceed\<close>, or has seen it return
  \<open>true\<close> and is about to call \<open>increment\<close>, or has returned \<open>nil\<close>. A schedule lists which
  goroutine takes its next step, and the clock at that step (the sleep after a failed
  test is time that passes between two steps of that goroutine).
\<close>

datatype goroutine = AtCanProceed | AtIncrement | Returned

definition gstep :: "instant \<times> nat \<Rightarrow> RateLimiter \<times> goroutine list \<Rightarrow> RateLimiter \<times> goroutine list" where
  "gstep ev s =
     (case ev of (now, i) \<Rightarrow>
      case s of (r, gs) \<Rightarrow>
        if i < length gs then
          (case gs ! i of
             AtCanProceed \<Rightarrow>
               (case canProceed now r of
                  (ok, r1) \<Rightarrow> (r1, gs[i := (if ok then AtIncrement else AtCanProceed)]))
           | AtIncrement \<Rightarrow> (increment r, gs[i := Returned])
           | Returned \<Rightarrow> (r, gs))
        else (r, gs))"

definition interleave :: "(instant \<times> nat) list \<Rightarrow> RateLimiter \<times> goroutine list \<Rightarrow> RateLimiter \<times> goroutine list" where
  "interleave schedule s = foldl (\<lambda>s ev. gstep ev s) s schedule"

section \<open>Proof vocabulary\<close>

text \<open>\<open>polled a b\<close>: limiter \<open>b\<close> is limiter \<open>a\<close> after any number of lazy resets.\<close>

definition polled :: "RateLimiter \<Rightarrow> RateLimiter \<Rightarrow> bool" where
  "polled = (\<lambda>a b. \<exists>t. b = resetIfNeeded t a)\<^sup>*\<^sup>*"

text \<open>
  The variant of \<open>Wait\<close>'s loop when no cancellation comes: for every window that is
  full, the time left until its reset.
\<close>

definition backlog :: "instant \<Rightarrow> RateLimiter \<Rightarrow> nat" where
  "backlog t r =
     (if sint (secCount r) < sint (requestsPerSecond r) then 0 else nat (secReset r - t + 1)) +
     (if sint (minCount r) < sint (requestsPerMinute r) then 0 else nat (minReset r - t + 1)) +
     (if sint (hrCount r) < sint (requestsPerHour r) then 0 else nat (hrReset r - t + 1))"

text \<open>
  The invariant of section 3 of the specification, window by window: \<open>count \<le> limit\<close>.
  A limiter is \<open>usable\<close> when moreover its ceilings are non-negative, as the
  configuration requires.
\<close>

definition withinLimits :: "RateLimiter \<Rightarrow> bool" where
  "withinLimits r \<longleftrightarrow>
     sint (secCount r) \<le> sint (requestsPerSecond r) \<and>
     sint (minCount r) \<le> sint (requestsPerMinute r) \<and>
     sint (hrCount r) \<le> sint (requestsPerHour r)"

definition usable :: "RateLimiter \<Rightarrow> bool" where
  "usable r \<longleftrightarrow>
     0 \<le> sint (requestsPerSecond r) \<and> 0 \<le> sint (requestsPerMinute r) \<and>
     0 \<le> sint (requestsPerHour r) \<and> withinLimits r"

section \<open>Lemmas: backoff\<close>

text \<open>
  Where the product \<open>baseDelay * 2 ^ k\<close> fits \<open>int64\<close>, the delay is the capped exponential
  of the specification; a zero base gives \<open>min 0 maxDelay\<close>; a shift by 64 gives 0.
\<close>

lemma sint_mult_pow2_exact:
  fixes a :: "64 word"
  assumes lo: "- (2 ^ 63) \<le> sint a * 2 ^ k" and hi: "sint a * 2 ^ k < 2 ^ 63"
  shows "sint (a * push_bit k 1) = sint a * 2 ^ k"
proof -
  have "a * push_bit k 1 = word_of_int (sint a * 2 ^ k)"
    by (simp add: push_bit_eq_mult)
  then have "sint (a * push_bit k 1) = signed_take_bit 63 (sint a * 2 ^ k)"
    by (simp only: signed_of_int) simp
  also have "\<dots> = sint a * 2 ^ k"
    using lo hi by (simp add: signed_take_bit_int_eq_self)
  finally show ?thesis .
qed

lemma calculateBackoff_exact:
  assumes "- (2 ^ 63) \<le> sint (baseDelay r) * 2 ^ unat k" and "sint (baseDelay r) * 2 ^ unat k < 2 ^ 63"
  shows "sint (calculateBackoff r k) = min (sint (baseDelay r) * 2 ^ unat k) (sint (maxDelay r))"
  using sint_mult_pow2_exact [OF assms]
  by (simp add: calculateBackoff_def Let_def min_def)

lemma calculateBackoff_zero_base:
  assumes "baseDelay r = 0" 
  shows "calculateBackoff r k = (if 0 \<le> sint (maxDelay r) then 0 else maxDelay r)"
  using assms by (simp add: calculateBackoff_def)

lemma calculateBackoff_shift64:
  "calculateBackoff \<lparr>maxRetries = 70, baseDelay = 100 * Millisecond, maxDelay = Second\<rparr> 64 = 0"
  by (simp add: calculateBackoff_def Millisecond_def Second_def)

section \<open>Lemmas: the retry loop\<close>

text \<open>The loop variable of a \<open>range\<close> loop never wraps: below the bound, adding one is exact.\<close>

lemma unat_succ_below:
  fixes a n :: "64 word"
  assumes "a < n"
  shows "unat (a + 1) = Suc (unat a)"
proof -
  have "unat a < unat n"
    using assms by (simp add: word_less_nat_alt)
  moreover have "unat n < 2 ^ 64"
    using unsigned_less [of n, where 'a = nat] by simp
  ultimately have "unat a + unat (1 :: 64 word) < 2 ^ LENGTH(64)"
    by simp
  then have "unat (a + 1) = unat a + unat (1 :: 64 word)"
    by (simp only: unat_add_lem)
  then show ?thesis
    by simp
qed

lemma unat_succ_not_max:
  fixes R :: "64 word"
  assumes "R \<noteq> - 1"
  shows "unat (R + 1) = Suc (unat R)"
proof -
  have "R < - 1"
    using assms by (simp add: word_order.not_eq_extremum)
  then show ?thesis
    by (rule unat_succ_below)
qed

lemma zero_is_not_max: "(0 :: 64 word) < R + 1" if "R \<noteq> - 1"
  using that by (simp add: word_less_nat_alt unat_succ_not_max)

lemma budget_facts:
  fixes R :: "64 word"
  assumes "2 \<le> R" and "R \<noteq> - 1"
  shows "0 < R + 1" "1 < R + 1" "2 < R + 1" "0 < R" "1 < R"
proof -
  have "2 \<le> unat R"
    using assms(1) by (simp add: word_le_nat_alt)
  moreover have "unat (R + 1) = Suc (unat R)"
    using assms(2) by (rule unat_succ_not_max)
  ultimately show "0 < R + 1" "1 < R + 1" "2 < R + 1" "0 < R" "1 < R"
    by (simp_all add: word_less_nat_alt)
qed

lemma Do_loop_exit: "\<not> a < n \<Longrightarrow> Do_loop sel r c fn n a lastErr s = Some (lastErr, s)"
  by (simp add: Do_loop.simps)

lemma select_after_never: "doneAt c = None \<Longrightarrow> \<exists>T. select_after sel c d t = (Timer, T)"
  by (simp add: select_after_def Let_def)

lemma ctx_Err_never: "doneAt c = None \<Longrightarrow> ctx_Err c t = None"
  by (simp add: ctx_Err_def)

lemma ctx_Err_cases: "ctx_Err c t = Some e \<Longrightarrow> e = cerr c"
  by (auto simp: ctx_Err_def split: option.splits if_splits)

lemma select_after_Done: "select_after sel c d t = (Done, t') \<Longrightarrow> ctx_Err c t' = Some (cerr c)"
  by (auto simp: select_after_def ctx_Err_def Let_def split: option.splits if_splits)

lemma Do_loop_cancelled:
  "a < n \<Longrightarrow> ctx_Err c t = Some e \<Longrightarrow> Do_loop sel r c fn n a lastErr (t, u) = Some (Some e, (t, u))"
  by (subst Do_loop.simps) simp

lemma Do_loop_retry_step:
  assumes "doneAt c = None" and "a < n" and "a < maxRetries r" and "fn s = Some ((True, e), s1)"
  shows "\<exists>T. Do_loop sel r c fn n a lastErr s = Do_loop sel r c fn n (a + 1) e (T, snd s1)"
proof -
  obtain T where "select_after sel c (calculateBackoff r a) (fst s1) = (Timer, T)"
    using select_after_never [OF assms(1)] by blast
  with assms have "Do_loop sel r c fn n a lastErr s = Do_loop sel r c fn n (a + 1) e (T, snd s1)"
    by (subst Do_loop.simps) (simp add: ctx_Err_never)
  then show ?thesis ..
qed

lemma Do_loop_stop_step:
  assumes "doneAt c = None" and "a < n" and "fn s = Some ((False, e), s1)"
  shows "Do_loop sel r c fn n a lastErr s = Some (e, s1)"
  using assms by (subst Do_loop.simps) (simp add: ctx_Err_never)

text \<open>
  A run in which no cancellation comes and every call of the attempt function asks for a
  retry: from attempt \<open>a\<close> on, the function is called once per remaining attempt, and the
  error returned is what the last call reported (\<open>P\<close> relates it to the final state).
  This needs \<open>maxRetries + 1\<close> not to wrap.
\<close>

lemma Do_loop_all_retry:
  fixes fn :: "'s attemptfn"
  assumes never: "doneAt c = None"
    and R: "maxRetries r \<noteq> - 1"
    and step: "\<And>t u. I u \<Longrightarrow>
       \<exists>e t' u'. fn (t, u) = Some ((True, e), (t', u')) \<and> I u' \<and> P e u' \<and> cnt u' = Suc (cnt u)"
  shows "I u \<Longrightarrow> unat a \<le> unat (maxRetries r) \<Longrightarrow> k = unat (maxRetries r) - unat a \<Longrightarrow>
     \<exists>e t' u'. Do_loop sel r c fn (maxRetries r + 1) a lastErr (t, u) = Some (e, (t', u')) \<and>
        I u' \<and> P e u' \<and> cnt u' = cnt u + Suc k"
proof (induction k arbitrary: a u t lastErr)
  case 0
  then have a: "a = maxRetries r"
    by (simp add: word_unat_eq_iff)
  from step [OF \<open>I u\<close>, of t] obtain e t' u' where
    f: "fn (t, u) = Some ((True, e), (t', u'))" and post: "I u'" "P e u'" "cnt u' = Suc (cnt u)"
    by blast
  have lt: "a < maxRetries r + 1"
    using R a by (simp add: word_less_nat_alt unat_succ_not_max)
  have "Do_loop sel r c fn (maxRetries r + 1) a lastErr (t, u)
      = Do_loop sel r c fn (maxRetries r + 1) (a + 1) e (t', u')"
    using lt a f never by (subst Do_loop.simps) (simp add: ctx_Err_never)
  also have "\<dots> = Some (e, (t', u'))"
    using a by (simp add: Do_loop_exit)
  finally show ?case
    using post by simp
next
  case (Suc k)
  then have alt: "unat a < unat (maxRetries r)"
    by simp
  then have a: "a < maxRetries r"
    by (simp add: word_less_nat_alt)
  from step [OF \<open>I u\<close>, of t] obtain e t' u' where
    f: "fn (t, u) = Some ((True, e), (t', u'))" and post: "I u'" "P e u'" "cnt u' = Suc (cnt u)"
    by blast
  have lt: "a < maxRetries r + 1"
    using R alt by (simp add: word_less_nat_alt unat_succ_not_max)
  obtain T where sel: "select_after sel c (calculateBackoff r a) t' = (Timer, T)"
    using select_after_never [OF never] by blast
  have unf: "Do_loop sel r c fn (maxRetries r + 1) a lastErr (t, u)
      = Do_loop sel r c fn (maxRetries r + 1) (a + 1) e (T, u')"
    using lt a f never sel by (subst Do_loop.simps) (simp add: ctx_Err_never)
  have s: "unat (a + 1) = Suc (unat a)"
    using a by (rule unat_succ_below)
  have "\<exists>e2 t2 u2. Do_loop sel r c fn (maxRetries r + 1) (a + 1) e (T, u') = Some (e2, (t2, u2)) \<and>
        I u2 \<and> P e2 u2 \<and> cnt u2 = cnt u' + Suc k"
    using Suc.prems alt s by (intro Suc.IH [OF post(1)]) simp_all
  then show ?case
    using unf post(3) by auto
qed

lemma Do_always_retry:
  fixes fn :: "'s attemptfn"
  assumes never: "doneAt c = None"
    and R: "maxRetries r \<noteq> - 1"
    and always: "\<And>s. \<exists>e s'. fn s = Some ((True, e), s')"
  shows "\<exists>log t' u'. Do sel r c (traced fn) (t, ([], u)) = Some (snd (last log), (t', (log, u'))) \<and>
      length log = unat (maxRetries r) + 1"
proof -
  define P where "P = (\<lambda>(e :: error option) (s :: (bool \<times> error option) list \<times> 's).
     fst s \<noteq> [] \<and> e = snd (last (fst s)))"
  have step: "\<And>t s. True \<Longrightarrow>
       \<exists>e t' s'. traced fn (t, s) = Some ((True, e), (t', s')) \<and> True \<and> P e s' \<and>
         length (fst s') = Suc (length (fst s))"
  proof -
    fix t and s :: "(bool \<times> error option) list \<times> 's"
    obtain log u where s: "s = (log, u)" by (cases s)
    from always [of "(t, u)"] obtain e t' u' where "fn (t, u) = Some ((True, e), (t', u'))"
      by force
    then show "\<exists>e t' s'. traced fn (t, s) = Some ((True, e), (t', s')) \<and> True \<and> P e s' \<and>
         length (fst s') = Suc (length (fst s))"
      by (simp add: traced_def s P_def)
  qed
  have "\<exists>e t' s'. Do_loop sel r c (traced fn) (maxRetries r + 1) 0 None (t, ([], u)) = Some (e, (t', s')) \<and>
        True \<and> P e s' \<and> length (fst s') = length (fst (([], u) :: (bool \<times> error option) list \<times> 's)) + Suc (unat (maxRetries r))"
    by (rule Do_loop_all_retry [OF never R step]) simp_all
  then show ?thesis
    by (auto simp: Do_def P_def)
qed

lemma Do_cancelled:
  assumes "maxRetries r \<noteq> - 1" and "ctx_Err c t = Some e"
  shows "Do sel r c (traced fn) (t, ([], u)) = Some (Some e, (t, ([], u)))"
proof -
  have "0 < maxRetries r + 1"
    using assms(1) by (simp add: word_less_nat_alt unat_succ_not_max)
  then show ?thesis
    using assms(2) by (simp add: Do_def Do_loop_cancelled)
qed

text \<open>
  A postcondition for any run that returns: the error returned is one the attempt function
  reported, with the state as that call left it (up to the clock), or the initial
  \<open>lastErr\<close>, or the cancellation error.
\<close>

lemma Do_loop_post:
  assumes fnpost: "\<And>s b e s'. fn s = Some ((b, e), s') \<Longrightarrow> Q e (snd s')"
    and cancel: "\<And>u. Q (Some (cerr c)) u"
  shows "Q lastErr (snd s) \<Longrightarrow> Do_loop sel r c fn n a lastErr s = Some (e, s') \<Longrightarrow> Q e (snd s')"
proof (induction "unat n - unat a" arbitrary: a lastErr s)
  case 0
  then have "\<not> a < n"
    by (simp add: word_less_nat_alt)
  with "0.prems" show ?case
    by (simp add: Do_loop_exit)
next
  case (Suc k)
  then have lt: "a < n"
    by (simp add: word_less_nat_alt)
  then have k: "k = unat n - unat (a + 1)"
    using Suc.hyps(2) by (simp add: unat_succ_below)
  note run = Suc.prems(2)
  show ?case
  proof (cases "ctx_Err c (fst s)")
    case (Some ce)
    then have "ce = cerr c"
      by (rule ctx_Err_cases)
    with lt Some run have "e = Some (cerr c)"
      by (subst (asm) Do_loop.simps) simp
    then show ?thesis
      using cancel by simp
  next
    case None
    show ?thesis
    proof (cases "fn s")
      case fnone: None
      with lt None run show ?thesis
        by (subst (asm) Do_loop.simps) simp
    next
      case (Some res)
      then obtain b e1 s1 where f: "fn s = Some ((b, e1), s1)"
        by (cases res) auto
      have q1: "Q e1 (snd s1)"
        using f by (rule fnpost)
      show ?thesis
      proof (cases b)
        case False
        with lt None f run q1 show ?thesis
          by (subst (asm) Do_loop.simps) auto
      next
        case retry: True
        show ?thesis
        proof (cases "a < maxRetries r")
          case last: False
          with lt None f retry run
          have "Do_loop sel r c fn n (a + 1) e1 s1 = Some (e, s')"
            by (subst (asm) Do_loop.simps) simp
          with Suc.hyps(1) [OF k] q1 show ?thesis
            by blast
        next
          case more: True
          obtain w t' where sa: "select_after sel c (calculateBackoff r a) (fst s1) = (w, t')"
            by (cases "select_after sel c (calculateBackoff r a) (fst s1)")
          show ?thesis
          proof (cases w)
            case Done
            with lt None f retry more sa run
            have "e = ctx_Err c t'"
              by (subst (asm) Do_loop.simps) simp
            moreover have "ctx_Err c t' = Some (cerr c)"
              using sa Done by (auto intro: select_after_Done)
            ultimately show ?thesis
              using cancel by simp
          next
            case Timer
            with lt None f retry more sa run
            have "Do_loop sel r c fn n (a + 1) e1 (t', snd s1) = Some (e, s')"
              by (subst (asm) Do_loop.simps) simp
            with Suc.hyps(1) [OF k, of e1 "(t', snd s1)"] q1 show ?thesis
              by simp
          qed
        qed
      qed
    qed
  qed
qed

section \<open>Lemmas: the limiter\<close>

lemma Wait_unfold:
  "Wait sel c (t, r) =
     (case ctx_Err c t of
        Some e \<Rightarrow> Some (Some e, (t, r))
      | None \<Rightarrow>
          if fst (canProceed t r) then Some (None, (t, increment (snd (canProceed t r))))
          else
            (case select_after sel c (100 * Millisecond) t of
               (Timer, t') \<Rightarrow> Wait sel c (t', snd (canProceed t r))
             | (Done, t') \<Rightarrow> Some (ctx_Err c t', (t', snd (canProceed t r)))))"
  by (subst Wait.simps) (auto split: prod.splits option.splits woke.splits)

lemma snd_canProceed: "snd (canProceed t r) = resetIfNeeded t r"
  by (simp add: canProceed_def Let_def)

lemma fst_canProceed:
  "fst (canProceed t r) \<longleftrightarrow>
     sint (secCount (resetIfNeeded t r)) < sint (requestsPerSecond (resetIfNeeded t r)) \<and>
     sint (minCount (resetIfNeeded t r)) < sint (requestsPerMinute (resetIfNeeded t r)) \<and>
     sint (hrCount (resetIfNeeded t r)) < sint (requestsPerHour (resetIfNeeded t r))"
  by (simp add: canProceed_def Let_def)

lemma resetIfNeeded_limits:
  "requestsPerSecond (resetIfNeeded t r) = requestsPerSecond r"
  "requestsPerMinute (resetIfNeeded t r) = requestsPerMinute r"
  "requestsPerHour (resetIfNeeded t r) = requestsPerHour r"
  by (simp_all add: resetIfNeeded_def Let_def)

lemma resetIfNeeded_counts:
  "secCount (resetIfNeeded t r) = (if secReset r < t then 0 else secCount r)"
  "minCount (resetIfNeeded t r) = (if minReset r < t then 0 else minCount r)"
  "hrCount (resetIfNeeded t r) = (if hrReset r < t then 0 else hrCount r)"
  by (simp_all add: resetIfNeeded_def Let_def After_def)

lemma resetIfNeeded_resets:
  "secReset (resetIfNeeded t r) = (if secReset r < t then t + 1000000000 else secReset r)"
  "minReset (resetIfNeeded t r) = (if minReset r < t then t + 60000000000 else minReset r)"
  "hrReset (resetIfNeeded t r) = (if hrReset r < t then t + 3600000000000 else hrReset r)"
  by (simp_all add: resetIfNeeded_def Let_def After_def Add_def Second_def Minute_def Hour_def)

lemma increment_fields:
  "requestsPerSecond (increment r) = requestsPerSecond r"
  "requestsPerMinute (increment r) = requestsPerMinute r"
  "requestsPerHour (increment r) = requestsPerHour r"
  "secCount (increment r) = secCount r + 1"
  "minCount (increment r) = minCount r + 1"
  "hrCount (increment r) = hrCount r + 1"
  by (simp_all add: increment_def)

lemma sint_succ_below:
  fixes a b :: "64 word"
  assumes "sint a < sint b"
  shows "sint (a + 1) = sint a + 1"
proof -
  have "sint b < 2 ^ 63"
    using sint_lt [of b] by simp
  moreover have "- (2 ^ 63) \<le> sint a"
    using sint_ge [of a] by simp
  ultimately have "signed_take_bit 63 (sint a + 1) = sint a + 1"
    using assms by (simp add: signed_take_bit_int_eq_self)
  then show ?thesis
    by (simp add: sint_word_ariths)
qed

lemma increment_exact:
  assumes "sint (secCount r) < sint (requestsPerSecond r)"
    and "sint (minCount r) < sint (requestsPerMinute r)"
    and "sint (hrCount r) < sint (requestsPerHour r)"
  shows "sint (secCount (increment r)) = sint (secCount r) + 1"
    and "sint (minCount (increment r)) = sint (minCount r) + 1"
    and "sint (hrCount (increment r)) = sint (hrCount r) + 1"
  using assms by (simp_all add: increment_fields sint_succ_below)

lemma poll_sleep: "sint (100 * Millisecond) = 100000000"
  by (simp add: Millisecond_def)

lemma polled_refl: "polled r r"
  by (simp add: polled_def)

lemma polled_step: "polled (resetIfNeeded t r) r0 \<Longrightarrow> polled r r0"
  unfolding polled_def by (rule converse_rtranclp_into_rtranclp [where b="resetIfNeeded t r"]) auto

lemma polled_reset: "polled r r0 \<Longrightarrow> polled r (resetIfNeeded t r0)"
  unfolding polled_def by (rule rtranclp.rtrancl_into_rtrancl) auto

lemma polled_induct:
  assumes "polled r r0" and "P r" and "\<And>t a. P a \<Longrightarrow> P (resetIfNeeded t a)"
  shows "P r0"
  using assms(1) unfolding polled_def
  by (induction rule: rtranclp_induct) (auto intro: assms)

lemma polled_limits:
  assumes "polled r r0"
  shows "requestsPerSecond r0 = requestsPerSecond r \<and> requestsPerMinute r0 = requestsPerMinute r \<and>
    requestsPerHour r0 = requestsPerHour r"
  using assms by (rule polled_induct) (simp_all add: resetIfNeeded_limits)

lemma nonneg_polled:
  "polled r r0 \<Longrightarrow> 0 \<le> sint (secCount r) \<Longrightarrow> 0 \<le> sint (secCount r0)"
  by (rule polled_induct [where P = "\<lambda>x. 0 \<le> sint (secCount x)"])
    (simp_all add: resetIfNeeded_counts)

lemma usable_reset: "usable r \<Longrightarrow> usable (resetIfNeeded t r)"
  by (simp add: usable_def withinLimits_def resetIfNeeded_limits resetIfNeeded_counts)

lemma usable_polled: "polled r r0 \<Longrightarrow> usable r \<Longrightarrow> usable r0"
  by (rule polled_induct [where P = usable]) (simp_all add: usable_reset)

lemma usable_New:
  "0 \<le> sint rps \<Longrightarrow> 0 \<le> sint rpm \<Longrightarrow> 0 \<le> sint rph \<Longrightarrow> usable (NewRateLimiter rps rpm rph t0)"
  by (simp add: usable_def withinLimits_def NewRateLimiter_def)

text \<open>
  What a returning \<open>Wait\<close> has done: it polled some number of times, and then either saw
  the cancellation and left the limiter as polled, or found all three windows open and
  incremented.
\<close>

lemma Wait_cases:
  assumes "Wait sel c s = Some res"
  shows "\<exists>r0. polled (snd s) r0 \<and>
     (fst res = Some (cerr c) \<and> ctx_Err c (fst (snd res)) = Some (cerr c) \<and> snd (snd res) = r0 \<or>
      fst res = None \<and> fst (canProceed (fst (snd res)) r0) \<and>
        snd (snd res) = increment (resetIfNeeded (fst (snd res)) r0))"
proof (rule Wait.raw_induct [where P = "\<lambda>sel c s res. \<exists>r0. polled (snd s) r0 \<and>
     (fst res = Some (cerr c) \<and> ctx_Err c (fst (snd res)) = Some (cerr c) \<and> snd (snd res) = r0 \<or>
      fst res = None \<and> fst (canProceed (fst (snd res)) r0) \<and>
        snd (snd res) = increment (resetIfNeeded (fst (snd res)) r0))", OF _ assms], goal_cases)
  case (1 W sel c s res)
  show ?case
  proof (cases "ctx_Err c (fst s)")
    case (Some e)
    with 1(2) have "res = (Some e, s)"
      by simp
    moreover have "e = cerr c"
      using Some by (rule ctx_Err_cases)
    ultimately show ?thesis
      using Some polled_refl by auto
  next
    case None
    show ?thesis
    proof (cases "fst (canProceed (fst s) (snd s))")
      case True
      with None 1(2) have "res = (None, (fst s, increment (resetIfNeeded (fst s) (snd s))))"
        by (auto simp: snd_canProceed [symmetric] split: prod.splits)
      then show ?thesis
        using True polled_refl by auto
    next
      case False
      obtain w t' where sa: "select_after sel c (100 * Millisecond) (fst s) = (w, t')"
        by (cases "select_after sel c (100 * Millisecond) (fst s)")
      show ?thesis
      proof (cases w)
        case Timer
        with None False sa 1(2) have "W sel c (t', resetIfNeeded (fst s) (snd s)) = Some res"
          by (auto simp: snd_canProceed [symmetric] split: prod.splits)
        from 1(1) [OF this] show ?thesis
          by (auto intro: polled_step)
      next
        case Done
        with None False sa 1(2) have "res = (ctx_Err c t', (t', resetIfNeeded (fst s) (snd s)))"
          by (auto simp: snd_canProceed [symmetric] split: prod.splits)
        moreover have "ctx_Err c t' = Some (cerr c)"
          using sa Done by (auto intro: select_after_Done)
        moreover have "polled (snd s) (resetIfNeeded (fst s) (snd s))"
          by (rule polled_step) (rule polled_refl)
        ultimately show ?thesis
          by auto
      qed
    qed
  qed
qed

lemma Wait_admitted:
  assumes "Wait sel c (t, r) = Some (None, (t', r'))"
  shows "\<exists>r1. polled r r1 \<and>
      sint (secCount r1) < sint (requestsPerSecond r1) \<and>
      sint (minCount r1) < sint (requestsPerMinute r1) \<and>
      sint (hrCount r1) < sint (requestsPerHour r1) \<and>
      r' = increment r1"
proof -
  from Wait_cases [OF assms] obtain r0 where
    p: "polled r r0" and ok: "fst (canProceed t' r0)" and r': "r' = increment (resetIfNeeded t' r0)"
    by auto
  from ok have "sint (secCount (resetIfNeeded t' r0)) < sint (requestsPerSecond (resetIfNeeded t' r0))"
    "sint (minCount (resetIfNeeded t' r0)) < sint (requestsPerMinute (resetIfNeeded t' r0))"
    "sint (hrCount (resetIfNeeded t' r0)) < sint (requestsPerHour (resetIfNeeded t' r0))"
    by (simp_all add: fst_canProceed)
  with polled_reset [OF p, of t'] r' show ?thesis
    by blast
qed

lemma Wait_cancelled:
  assumes "Wait sel c (t, r) = Some (Some e, (t', r'))"
  shows "e = cerr c \<and> ctx_Err c t' = Some (cerr c) \<and> polled r r'"
  using Wait_cases [OF assms] by auto

lemma usable_Wait:
  assumes "Wait sel c (t, r) = Some (e, (t', r'))" and "usable r"
  shows "usable r'"
proof (cases e)
  case None
  with assms(1) obtain r1 where p: "polled r r1"
    and lt: "sint (secCount r1) < sint (requestsPerSecond r1)"
      "sint (minCount r1) < sint (requestsPerMinute r1)"
      "sint (hrCount r1) < sint (requestsPerHour r1)"
    and r': "r' = increment r1"
    using Wait_admitted by blast
  have "usable r1"
    using p assms(2) by (rule usable_polled)
  then show ?thesis
    using lt increment_exact [OF lt]
    by (simp add: r' usable_def withinLimits_def increment_fields)
next
  case (Some a)
  with assms(1) have "polled r r'"
    using Wait_cancelled by blast
  then show ?thesis
    using assms(2) by (rule usable_polled)
qed

lemma Wait_limits:
  assumes "Wait sel c (t, r) = Some (e, (t', r'))"
  shows "requestsPerSecond r' = requestsPerSecond r \<and> requestsPerMinute r' = requestsPerMinute r \<and>
    requestsPerHour r' = requestsPerHour r"
proof (cases e)
  case None
  with assms obtain r1 where "polled r r1" "r' = increment r1"
    using Wait_admitted by blast
  then show ?thesis
    using polled_limits [of r r1] by (simp add: increment_fields)
next
  case (Some a)
  with assms have "polled r r'"
    using Wait_cancelled by blast
  then show ?thesis
    by (rule polled_limits)
qed

lemma Waits_usable:
  "Waits sel r calls = Some r' \<Longrightarrow> usable r \<Longrightarrow>
     usable r' \<and> requestsPerSecond r' = requestsPerSecond r \<and>
     requestsPerMinute r' = requestsPerMinute r \<and> requestsPerHour r' = requestsPerHour r"
proof (induction calls arbitrary: r)
  case Nil
  then show ?case by simp
next
  case (Cons call calls)
  obtain c t where call: "call = (c, t)"
    by (cases call)
  from Cons.prems(1) obtain e t1 r1 where w: "Wait sel c (t, r) = Some (e, (t1, r1))"
    and rest: "Waits sel r1 calls = Some r'"
    by (auto simp: call split: option.splits)
  have "usable r1"
    using w Cons.prems(2) by (rule usable_Wait)
  from Cons.IH [OF rest this] Wait_limits [OF w] show ?case
    by simp
qed

text \<open>
  When \<open>Wait\<close> returns: always under a context that is cancelled at some instant, and
  always when all three ceilings are positive (every full window resets within its
  duration, and an emptied window stays open until the next admission).
\<close>

lemma Wait_returns_when_cancelled:
  assumes "doneAt c = Some f"
  shows "\<exists>res. Wait sel c (t, r) = Some res"
proof (induction "nat (f - t)" arbitrary: t r rule: less_induct)
  case less
  show ?case
  proof (cases "f \<le> t")
    case True
    then have "ctx_Err c t = Some (cerr c)"
      using assms by (simp add: ctx_Err_def)
    then show ?thesis
      by (subst Wait_unfold) simp
  next
    case False
    then have none: "ctx_Err c t = None"
      using assms by (simp add: ctx_Err_def)
    show ?thesis
    proof (cases "fst (canProceed t r)")
      case True
      with none show ?thesis
        by (subst Wait_unfold) simp
    next
      case blocked: False
      obtain w t' where sa: "select_after sel c (100 * Millisecond) t = (w, t')"
        by (cases "select_after sel c (100 * Millisecond) t")
      show ?thesis
      proof (cases w)
        case Done
        with none blocked sa show ?thesis
          by (subst Wait_unfold) simp
      next
        case Timer
        with sa have "t < t'"
          using assms False
          by (auto simp: select_after_def Let_def poll_sleep split: if_splits)
        with False have "nat (f - t') < nat (f - t)"
          by simp
        from less [OF this] obtain res where "Wait sel c (t', snd (canProceed t r)) = Some res"
          by blast
        with none blocked sa Timer show ?thesis
          by (subst Wait_unfold) (simp del: split_paired_Ex)
      qed
    qed
  qed
qed

lemma backlog_decreases:
  assumes "0 < sint (requestsPerSecond r)" "0 < sint (requestsPerMinute r)" "0 < sint (requestsPerHour r)"
    and "\<not> fst (canProceed t r)" and "t < t'"
  shows "backlog t' (resetIfNeeded t r) < backlog t r"
  using assms
  by (auto simp: backlog_def fst_canProceed resetIfNeeded_limits resetIfNeeded_counts
      resetIfNeeded_resets split: if_splits)

lemma Wait_returns_with_capacity:
  assumes never: "doneAt c = None"
  shows "0 < sint (requestsPerSecond r) \<Longrightarrow> 0 < sint (requestsPerMinute r) \<Longrightarrow>
    0 < sint (requestsPerHour r) \<Longrightarrow> \<exists>res. Wait sel c (t, r) = Some res"
proof (induction "backlog t r" arbitrary: t r rule: less_induct)
  case less
  have none: "ctx_Err c t = None"
    using never by (simp add: ctx_Err_def)
  show ?case
  proof (cases "fst (canProceed t r)")
    case True
    with none show ?thesis
      by (subst Wait_unfold) simp
  next
    case False
    have sa: "select_after sel c (100 * Millisecond) t = (Timer, t + 100000000)"
      using never by (simp add: select_after_def poll_sleep)
    have "backlog (t + 100000000) (resetIfNeeded t r) < backlog t r"
      using less.prems False by (intro backlog_decreases) simp_all
    from less.hyps [OF this] less.prems
    obtain res where "Wait sel c (t + 100000000, resetIfNeeded t r) = Some res"
      by (auto simp: resetIfNeeded_limits)
    with none False sa show ?thesis
      by (subst Wait_unfold) (simp add: snd_canProceed del: split_paired_Ex)
  qed
qed

lemma Wait_admits_with_capacity:
  assumes never: "doneAt c = None"
    and limits: "0 < sint (requestsPerSecond r)" "0 < sint (requestsPerMinute r)"
      "0 < sint (requestsPerHour r)"
  shows "\<exists>t' r'. Wait sel c (t, r) = Some (None, (t', r')) \<and>
     requestsPerSecond r' = requestsPerSecond r \<and> requestsPerMinute r' = requestsPerMinute r \<and>
     requestsPerHour r' = requestsPerHour r"
proof -
  from Wait_returns_with_capacity [OF never limits] obtain e t' r' where
    w: "Wait sel c (t, r) = Some (e, (t', r'))"
    by (metis prod_cases3)
  have "e = None"
  proof (cases e)
    case (Some a)
    with w have "ctx_Err c t' = Some (cerr c)"
      using Wait_cancelled by blast
    then show ?thesis
      using never by (simp add: ctx_Err_never)
  qed simp
  with w Wait_limits [OF w] show ?thesis
    by auto
qed

lemma Wait_blocked_until_cancelled:
  assumes "doneAt c = Some f" and "requestsPerSecond r = 0" and "0 \<le> sint (secCount r)"
  shows "\<exists>t' r'. Wait sel c (t, r) = Some (Some (cerr c), (t', r')) \<and> polled r r'"
proof -
  from Wait_returns_when_cancelled [OF assms(1)] obtain e t' r' where
    w: "Wait sel c (t, r) = Some (e, (t', r'))"
    by (metis prod_cases3)
  show ?thesis
  proof (cases e)
    case None
    with w obtain r1 where p: "polled r r1" and "sint (secCount r1) < sint (requestsPerSecond r1)"
      using Wait_admitted by blast
    moreover have "requestsPerSecond r1 = 0"
      using polled_limits [OF p] assms(2) by simp
    moreover have "0 \<le> sint (secCount r1)"
      using p assms(3) by (rule nonneg_polled)
    ultimately show ?thesis
      by simp
  next
    case (Some a)
    with w Wait_cancelled [of sel c t r a t' r'] show ?thesis
      by simp
  qed
qed

section \<open>Lemmas: the client\<close>

lemma attemptFn_closes:
  assumes "attemptFn sel cl c req s = Some ((b, None), s')"
    and "resp (snd s') = Some rsp" and "statusListed (StatusCode rsp) (retryOnStatus cl)"
  shows "closed rsp"
  using assms
  by (auto simp: attemptFn_def split: option.splits prod.splits roundtrip.splits if_splits)

lemma attemptFn_retries_listed_response:
  fixes cl :: "('q, roundtrip list \<times> 't) Client"
  assumes never: "doneAt c = None"
    and http: "httpClient cl = recorded tr"
    and responds: "\<And>req s. \<exists>rsp s'. tr req s = (Responded rsp, s') \<and>
        statusListed (StatusCode rsp) (retryOnStatus cl)"
    and limits: "0 < sint (requestsPerSecond (limiter u))" "0 < sint (requestsPerMinute (limiter u))"
      "0 < sint (requestsPerHour (limiter u))"
  shows "\<exists>t' u' rsp. attemptFn sel cl c req (t, u) = Some ((True, None), (t', u')) \<and>
     0 < sint (requestsPerSecond (limiter u')) \<and> 0 < sint (requestsPerMinute (limiter u')) \<and>
     0 < sint (requestsPerHour (limiter u')) \<and>
     resp u' = Some (rsp\<lparr>closed := True\<rparr>) \<and>
     fst (tstate u') = fst (tstate u) @ [Responded rsp]"
proof -
  from Wait_admits_with_capacity [OF never limits] obtain t1 l1 where
    w: "Wait sel c (t, limiter u) = Some (None, (t1, l1))"
    and l1: "requestsPerSecond l1 = requestsPerSecond (limiter u)"
      "requestsPerMinute l1 = requestsPerMinute (limiter u)"
      "requestsPerHour l1 = requestsPerHour (limiter u)"
    by blast
  obtain log ts where ts: "tstate u = (log, ts)"
    by (cases "tstate u")
  from responds [of req "(t1, ts)"] obtain rsp t2 ts' where
    tr: "tr req (t1, ts) = (Responded rsp, (t2, ts'))"
    and listed: "statusListed (StatusCode rsp) (retryOnStatus cl)"
    by (metis prod.collapse)
  have "attemptFn sel cl c req (t, u) = Some ((True, None),
      (t2, \<lparr>resp = Some (rsp\<lparr>closed := True\<rparr>), limiter = l1, tstate = (log @ [Responded rsp], ts')\<rparr>))"
    using w tr listed by (simp add: attemptFn_def http recorded_def ts)
  then show ?thesis
    using l1 limits ts by auto
qed

lemma attemptFn_mock:
  fixes cl :: "('q, mockTransport) Client"
  assumes never: "doneAt c = None"
    and http: "httpClient cl = mockClient"
    and limits: "0 < sint (requestsPerSecond l)" "0 < sint (requestsPerMinute l)"
      "0 < sint (requestsPerHour l)"
    and i: "index m < length (responses m)"
    and ok: "mockErr (responses m ! index m) = None"
  shows "\<exists>t' l'. attemptFn sel cl c req (t, \<lparr>resp = r0, limiter = l, tstate = m\<rparr>)
     = Some ((statusListed (statusCode (responses m ! index m)) (retryOnStatus cl), None),
         (t', \<lparr>resp = Some \<lparr>StatusCode = statusCode (responses m ! index m),
                             Body = body (responses m ! index m),
                             closed = statusListed (statusCode (responses m ! index m)) (retryOnStatus cl)\<rparr>,
               limiter = l',
               tstate = m\<lparr>attempts := map_option (\<lambda>n. n + 1) (attempts m), index := index m + 1\<rparr>\<rparr>)) \<and>
     0 < sint (requestsPerSecond l') \<and> 0 < sint (requestsPerMinute l') \<and> 0 < sint (requestsPerHour l')"
proof -
  from Wait_admits_with_capacity [OF never limits] obtain t1 l1 where
    w: "Wait sel c (t, l) = Some (None, (t1, l1))"
    and l1: "requestsPerSecond l1 = requestsPerSecond l" "requestsPerMinute l1 = requestsPerMinute l"
      "requestsPerHour l1 = requestsPerHour l"
    by blast
  have "mockClient req (t1, m) =
      (Responded \<lparr>StatusCode = statusCode (responses m ! index m),
                  Body = body (responses m ! index m), closed = False\<rparr>,
       (t1, m\<lparr>attempts := map_option (\<lambda>n. n + 1) (attempts m), index := index m + 1\<rparr>))"
    using i ok by (simp add: mockClient_def RoundTrip_def Let_def)
  with w l1 limits show ?thesis
    by (simp add: attemptFn_def http)
qed

text \<open>
  Retries that run out. \<open>exhaustion_happens\<close>: in an environment where every attempt is
  admitted and answered with a listed status, \<open>Do\<close> returns after \<open>maxRetries + 1\<close> transport
  calls. \<open>exhaustion_result\<close>: in any environment, a call that returns after
  \<open>maxRetries + 1\<close> transport calls, the last of them answered with a listed status,
  returns that response, closed, and no error.
\<close>

lemma exhaustion_happens:
  fixes cl :: "('q, roundtrip list \<times> 't) Client"
  assumes never: "doneAt c = None"
    and R: "maxRetries (retryer cl) \<noteq> - 1"
    and limits: "0 < sint (requestsPerSecond l)" "0 < sint (requestsPerMinute l)"
      "0 < sint (requestsPerHour l)"
    and http: "httpClient cl = recorded tr"
    and responds: "\<And>req s. \<exists>rsp s'. tr req s = (Responded rsp, s') \<and>
        statusListed (StatusCode rsp) (retryOnStatus cl)"
  shows "\<exists>rsp t' l' log ts'.
     Client_Do sel cl c req (t, l, ([], ts))
       = Some ((Some (rsp\<lparr>closed := True\<rparr>), None), (t', l', (log, ts'))) \<and>
     length log = unat (maxRetries (retryer cl)) + 1 \<and> last log = Responded rsp"
proof -
  define I where "I = (\<lambda>u :: (roundtrip list \<times> 't) closure.
     0 < sint (requestsPerSecond (limiter u)) \<and> 0 < sint (requestsPerMinute (limiter u)) \<and>
     0 < sint (requestsPerHour (limiter u)))"
  define P where "P = (\<lambda>(e :: error option) (u :: (roundtrip list \<times> 't) closure).
     e = None \<and> (\<exists>rsp. resp u = Some (rsp\<lparr>closed := True\<rparr>) \<and> fst (tstate u) \<noteq> [] \<and>
        last (fst (tstate u)) = Responded rsp))"
  define cnt where "cnt = (\<lambda>u :: (roundtrip list \<times> 't) closure. length (fst (tstate u)))"
  define u0 where "u0 = \<lparr>resp = None, limiter = l, tstate = ([] :: roundtrip list, ts)\<rparr>"
  have step: "\<exists>e t' u'. attemptFn sel cl c req (t, u) = Some ((True, e), (t', u')) \<and> I u' \<and> P e u' \<and>
      cnt u' = Suc (cnt u)" if "I u" for t u
  proof -
    from that attemptFn_retries_listed_response [OF never http responds, of u sel req t]
    obtain t' u' rsp where "attemptFn sel cl c req (t, u) = Some ((True, None), (t', u'))"
      "I u'" "resp u' = Some (rsp\<lparr>closed := True\<rparr>)" "fst (tstate u') = fst (tstate u) @ [Responded rsp]"
      unfolding I_def by blast
    then show ?thesis
      by (auto simp: P_def cnt_def)
  qed
  have "I u0"
    using limits by (simp add: I_def u0_def)
  then have "\<exists>e t' u'. Do_loop sel (retryer cl) c (attemptFn sel cl c req) (maxRetries (retryer cl) + 1) 0 None (t, u0)
       = Some (e, (t', u')) \<and> I u' \<and> P e u' \<and> cnt u' = cnt u0 + Suc (unat (maxRetries (retryer cl)))"
    using Do_loop_all_retry [where I = I and P = P and cnt = cnt and a = 0, OF never R step]
    by simp
  then obtain t' u' rsp where
    run: "Do sel (retryer cl) c (attemptFn sel cl c req) (t, u0) = Some (None, (t', u'))"
    and r: "resp u' = Some (rsp\<lparr>closed := True\<rparr>)" "last (fst (tstate u')) = Responded rsp"
    and n: "length (fst (tstate u')) = Suc (unat (maxRetries (retryer cl)))"
    by (auto simp: Do_def P_def cnt_def u0_def)
  have "Client_Do sel cl c req (t, l, ([], ts))
      = Some ((Some (rsp\<lparr>closed := True\<rparr>), None), (t', limiter u', (fst (tstate u'), snd (tstate u'))))"
    using run r(1) by (simp add: Client_Do_def u0_def)
  with r(2) n show ?thesis
    by (intro exI [of _ rsp] exI [of _ t'] exI [of _ "limiter u'"] exI [of _ "fst (tstate u')"]
        exI [of _ "snd (tstate u')"]) simp
qed

lemma attemptFn_recorded_cases:
  fixes cl :: "('q, roundtrip list \<times> 't) Client"
  assumes http: "httpClient cl = recorded tr"
    and run: "attemptFn sel cl c req (t, u) = Some ((b, e), (t', u'))"
  shows "fst (tstate u') = fst (tstate u) \<and> \<not> b \<and> e \<noteq> None \<or>
    (\<exists>x. fst (tstate u') = fst (tstate u) @ [x] \<and>
       ((\<exists>er r. x = Failed er r \<and> b \<and> e = Some er \<and> resp u' = r) \<or>
        (\<exists>rsp. x = Responded rsp \<and> statusListed (StatusCode rsp) (retryOnStatus cl) \<and> b \<and>
           e = None \<and> resp u' = Some (rsp\<lparr>closed := True\<rparr>)) \<or>
        (\<exists>rsp. x = Responded rsp \<and> \<not> statusListed (StatusCode rsp) (retryOnStatus cl) \<and> \<not> b \<and>
           e = None \<and> resp u' = Some rsp)))"
proof (cases "Wait sel c (t, limiter u)")
  case None
  with run show ?thesis
    by (simp add: attemptFn_def)
next
  case (Some w)
  obtain we t1 l1 where w: "w = (we, (t1, l1))"
    by (cases w) auto
  show ?thesis
  proof (cases we)
    case (Some err)
    with run \<open>Wait sel c (t, limiter u) = Some w\<close> w show ?thesis
      by (auto simp: attemptFn_def)
  next
    case None
    obtain log ts where ts: "tstate u = (log, ts)"
      by (cases "tstate u")
    obtain x t2 ts' where tr: "tr req (t1, ts) = (x, (t2, ts'))"
      by (cases "tr req (t1, ts)") auto
    then have rec: "recorded tr req (t1, tstate u) = (x, (t2, (log @ [x], ts')))"
      by (simp add: recorded_def ts)
    show ?thesis
    proof (cases x)
      case (Responded rsp)
      with run \<open>Wait sel c (t, limiter u) = Some w\<close> w None rec show ?thesis
        by (auto simp: attemptFn_def http ts split: if_splits)
    next
      case (Failed er r)
      with run \<open>Wait sel c (t, limiter u) = Some w\<close> w None rec show ?thesis
        by (auto simp: attemptFn_def http ts)
    qed
  qed
qed

lemma Do_loop_exhaustion:
  fixes cl :: "('q, roundtrip list \<times> 't) Client"
  assumes http: "httpClient cl = recorded tr"
    and R: "maxRetries (retryer cl) \<noteq> - 1"
  shows "Do_loop sel (retryer cl) c (attemptFn sel cl c req) (maxRetries (retryer cl) + 1) a lastErr (t, u)
       = Some (e, (t', u')) \<Longrightarrow>
     K = Suc (unat (maxRetries (retryer cl))) - unat a \<Longrightarrow>
     \<exists>ext. fst (tstate u') = fst (tstate u) @ ext \<and> length ext \<le> K \<and>
       (length ext = K \<longrightarrow> 0 < K \<longrightarrow>
          (\<forall>rsp. last ext = Responded rsp \<longrightarrow>
             statusListed (StatusCode rsp) (retryOnStatus cl) \<longrightarrow>
             e = None \<and> resp u' = Some (rsp\<lparr>closed := True\<rparr>)))"
proof (induction K arbitrary: a lastErr t u)
  case 0
  have n: "unat (maxRetries (retryer cl) + 1) = Suc (unat (maxRetries (retryer cl)))"
    using R by (rule unat_succ_not_max)
  from 0 have "\<not> a < maxRetries (retryer cl) + 1"
    by (simp add: word_less_nat_alt n)
  with "0.prems"(1) have "u' = u"
    by (simp add: Do_loop_exit)
  then show ?case
    by simp
next
  case (Suc K)
  let ?r = "retryer cl" and ?fn = "attemptFn sel cl c req"
  let ?n = "maxRetries ?r + 1"
  have n: "unat ?n = Suc (unat (maxRetries ?r))"
    using R by (rule unat_succ_not_max)
  from Suc.prems(2) have lt: "a < ?n"
    by (simp add: word_less_nat_alt n)
  then have a1: "unat (a + 1) = Suc (unat a)"
    by (rule unat_succ_below)
  with Suc.prems(2) have K: "K = Suc (unat (maxRetries ?r)) - unat (a + 1)"
    by simp
  note run = Suc.prems(1)
  show ?case
  proof (cases "ctx_Err c t")
    case (Some ce)
    with lt run have "u' = u"
      by (subst (asm) Do_loop.simps) simp
    then show ?thesis
      by simp
  next
    case None
    show ?thesis
    proof (cases "?fn (t, u)")
      case fnone: None
      with lt None run show ?thesis
        by (subst (asm) Do_loop.simps) simp
    next
      case (Some res)
      then obtain b e1 t1 u1 where f: "?fn (t, u) = Some ((b, e1), (t1, u1))"
        by (cases res) auto
      note cases = attemptFn_recorded_cases [OF http f]
      show ?thesis
      proof (cases b)
        case False
        with lt None f run have fin: "e = e1" "u' = u1"
          by (subst (asm) Do_loop.simps, simp)+
        from cases False fin show ?thesis
          by (auto simp: less_Suc_eq_le)
      next
        case retry: True
        with cases obtain x where x: "fst (tstate u1) = fst (tstate u) @ [x]"
          and out: "\<forall>rsp. x = Responded rsp \<longrightarrow> statusListed (StatusCode rsp) (retryOnStatus cl) \<longrightarrow>
              e1 = None \<and> resp u1 = Some (rsp\<lparr>closed := True\<rparr>)"
          by auto
        show ?thesis
        proof (cases "a < maxRetries ?r")
          case last: False
          with lt have "a + 1 = ?n"
            by (simp add: word_less_nat_alt word_unat_eq_iff n a1)
          with lt None f retry last run have fin: "e = e1" "u' = u1"
            by (subst (asm) Do_loop.simps, simp add: Do_loop_exit)+
          from last lt have "K = 0"
            using Suc.prems(2) by (simp add: word_less_nat_alt n)
          with x out fin show ?thesis
            by auto
        next
          case more: True
          then have Kpos: "0 < K"
            using K a1 by (simp add: word_less_nat_alt)
          obtain w T where sa: "select_after sel c (calculateBackoff ?r a) t1 = (w, T)"
            by (cases "select_after sel c (calculateBackoff ?r a) t1")
          show ?thesis
          proof (cases w)
            case Done
            with lt None f retry more sa run have "u' = u1"
              by (subst (asm) Do_loop.simps) simp
            with x Kpos show ?thesis
              by auto
          next
            case Timer
            with lt None f retry more sa run
            have rec: "Do_loop sel ?r c ?fn ?n (a + 1) e1 (T, u1) = Some (e, (t', u'))"
              by (subst (asm) Do_loop.simps) simp
            from Suc.IH [OF rec K] obtain ext where
              ext: "fst (tstate u') = fst (tstate u1) @ ext" "length ext \<le> K"
              and fin: "length ext = K \<longrightarrow> 0 < K \<longrightarrow>
                (\<forall>rsp. last ext = Responded rsp \<longrightarrow>
                   statusListed (StatusCode rsp) (retryOnStatus cl) \<longrightarrow>
                   e = None \<and> resp u' = Some (rsp\<lparr>closed := True\<rparr>))"
              by blast
            have "fst (tstate u') = fst (tstate u) @ (x # ext)"
              using x ext(1) by simp
            moreover have "length (x # ext) \<le> Suc K"
              using ext(2) by simp
            moreover have "\<forall>rsp. last (x # ext) = Responded rsp \<longrightarrow>
                   statusListed (StatusCode rsp) (retryOnStatus cl) \<longrightarrow>
                   e = None \<and> resp u' = Some (rsp\<lparr>closed := True\<rparr>)"
              if "length (x # ext) = Suc K"
            proof -
              from that Kpos have "length ext = K" "ext \<noteq> []"
                by auto
              with fin Kpos show ?thesis
                by simp
            qed
            ultimately show ?thesis
              by blast
          qed
        qed
      qed
    qed
  qed
qed

lemma exhaustion_result:
  fixes cl :: "('q, roundtrip list \<times> 't) Client"
  assumes http: "httpClient cl = recorded tr"
    and run: "Client_Do sel cl c req (t, l, ([], ts)) = Some ((rp, e), (t', l', (log, ts')))"
    and used: "length log = unat (maxRetries (retryer cl)) + 1"
    and last: "last log = Responded rsp"
    and listed: "statusListed (StatusCode rsp) (retryOnStatus cl)"
  shows "e = None \<and> rp = Some (rsp\<lparr>closed := True\<rparr>)"
proof -
  let ?u0 = "\<lparr>resp = None, limiter = l, tstate = ([] :: roundtrip list, ts)\<rparr>"
  from run obtain u' where
    d: "Do_loop sel (retryer cl) c (attemptFn sel cl c req) (maxRetries (retryer cl) + 1) 0 None (t, ?u0)
       = Some (e, (t', u'))"
    and u': "resp u' = rp" "tstate u' = (log, ts')"
    by (auto simp: Client_Do_def Do_def split: option.splits)
  show ?thesis
  proof (cases "maxRetries (retryer cl) = - 1")
    case True
    with d have "u' = ?u0"
      by (simp add: Do_loop_exit)
    with u' used show ?thesis
      by simp
  next
    case False
    from Do_loop_exhaustion [OF http False d, of "Suc (unat (maxRetries (retryer cl)))"]
    obtain ext where "fst (tstate u') = ext"
      and "length ext = Suc (unat (maxRetries (retryer cl))) \<longrightarrow>
        (\<forall>rsp. last ext = Responded rsp \<longrightarrow> statusListed (StatusCode rsp) (retryOnStatus cl) \<longrightarrow>
           e = None \<and> resp u' = Some (rsp\<lparr>closed := True\<rparr>))"
      by auto
    with u' used last listed show ?thesis
      by auto
  qed
qed

text \<open>
  With a ceiling of 0 and a context that is cancelled at some instant, the attempt is not
  retried and the transport is not called, provided \<open>maxRetries + 1\<close> does not wrap.
\<close>

lemma Client_Do_rate_limited:
  assumes R: "maxRetries (retryer cl) \<noteq> - 1"
    and deadline: "doneAt c = Some f"
    and zero: "requestsPerSecond l = 0"
    and counts: "0 \<le> sint (secCount l)"
  shows "\<exists>t' l'. Client_Do sel cl c req (t, l, ts) = Some ((None, Some (cerr c)), (t', l', ts)) \<and>
     (ctx_Err c t = None \<longrightarrow>
        attemptFn sel cl c req (t, \<lparr>resp = None, limiter = l, tstate = ts\<rparr>)
          = Some ((False, Some (cerr c)), (t', \<lparr>resp = None, limiter = l', tstate = ts\<rparr>)))"
proof (cases "ctx_Err c t")
  case (Some e)
  then have "e = cerr c"
    by (rule ctx_Err_cases)
  with Some have "Do sel (retryer cl) c (attemptFn sel cl c req) (t, \<lparr>resp = None, limiter = l, tstate = ts\<rparr>)
     = Some (Some (cerr c), (t, \<lparr>resp = None, limiter = l, tstate = ts\<rparr>))"
    using zero_is_not_max [OF R] by (simp add: Do_def Do_loop_cancelled)
  with Some show ?thesis
    by (simp add: Client_Do_def)
next
  case None
  from Wait_blocked_until_cancelled [OF deadline zero counts, of sel t] obtain t' l' where
    w: "Wait sel c (t, l) = Some (Some (cerr c), (t', l'))"
    by blast
  then have a: "attemptFn sel cl c req (t, \<lparr>resp = None, limiter = l, tstate = ts\<rparr>)
          = Some ((False, Some (cerr c)), (t', \<lparr>resp = None, limiter = l', tstate = ts\<rparr>))"
    by (simp add: attemptFn_def)
  have "Do sel (retryer cl) c (attemptFn sel cl c req) (t, \<lparr>resp = None, limiter = l, tstate = ts\<rparr>)
     = Some (Some (cerr c), (t', \<lparr>resp = None, limiter = l', tstate = ts\<rparr>))"
    unfolding Do_def using zero_is_not_max [OF R] None a
    by (subst Do_loop.simps) simp
  with a show ?thesis
    by (simp add: Client_Do_def)
qed

text \<open>\<open>TestClient_Do_MaxRetriesExceeded\<close>, evaluated.\<close>

lemmas run_defs = Client_Do_def Do_def Do_loop.simps attemptFn_def Wait_unfold ctx_Err_def
  canProceed_def resetIfNeeded_def After_def Add_def Second_def Minute_def Hour_def Millisecond_def
  NewRateLimiter_def increment_def Let_def select_after_def calculateBackoff_def
  NewClient_def NewRetryer_def Background_def mockClient_def RoundTrip_def recorded_def

lemma MaxRetriesExceeded_run:
  "Client_Do (\<lambda>_. True)
     (fst (NewClient mockClient
        \<lparr>RequestsPerSecond = 100, RequestsPerMinute = 1000, RequestsPerHour = 10000\<rparr>
        \<lparr>MaxRetries = 2, BaseDelay = 10 * Millisecond, MaxDelay = 100 * Millisecond,
          RetryOnStatus = [500]\<rparr> 0))
     Background ()
     (0, NewRateLimiter 100 1000 10000 0,
      \<lparr>attempts = Some 0,
        responses = [\<lparr>statusCode = 500, body = ''Error'', mockErr = None\<rparr>,
                     \<lparr>statusCode = 500, body = ''Error'', mockErr = None\<rparr>,
                     \<lparr>statusCode = 500, body = ''Error'', mockErr = None\<rparr>],
        index = 0\<rparr>)
   = Some ((Some \<lparr>StatusCode = 500, Body = ''Error'', closed = True\<rparr>, None),
           (30000000,
            \<lparr>secCount = 3, minCount = 3, hrCount = 3,
              secReset = 1000000000, minReset = 60000000000, hrReset = 3600000000000,
              requestsPerSecond = 100, requestsPerMinute = 1000, requestsPerHour = 10000\<rparr>,
            \<lparr>attempts = Some 3,
              responses = [\<lparr>statusCode = 500, body = ''Error'', mockErr = None\<rparr>,
                           \<lparr>statusCode = 500, body = ''Error'', mockErr = None\<rparr>,
                           \<lparr>statusCode = 500, body = ''Error'', mockErr = None\<rparr>],
              index = 3\<rparr>))"
  by (simp add: run_defs)

text \<open>
  \<open>TestClient_Do_StatusBasedRetry\<close> in general: retryable statuses 500 and 502, any
  budget from 2 up to, but not including, \<open>math.MaxUint64\<close>, any delays, positive
  ceilings, no cancellation, and the mock transport answering 500, 500, 200. \<open>Do\<close>
  returns the 200 response, its body open, and a \<open>nil\<close> error after exactly 3 transport
  calls. The second lemma is the run with the test's own configuration.
\<close>

lemma status_retry_500_500_200:
  fixes cl :: "('q, mockTransport) Client"
  assumes never: "doneAt c = None"
    and budget: "2 \<le> maxRetries (retryer cl)" "maxRetries (retryer cl) \<noteq> - 1"
    and limits: "0 < sint (requestsPerSecond l)" "0 < sint (requestsPerMinute l)"
      "0 < sint (requestsPerHour l)"
    and http: "httpClient cl = mockClient"
    and statuses: "retryOnStatus cl = [500, 502]"
    and m: "m = \<lparr>attempts = Some 0,
                 responses = [\<lparr>statusCode = 500, body = b1, mockErr = None\<rparr>,
                              \<lparr>statusCode = 500, body = b2, mockErr = None\<rparr>,
                              \<lparr>statusCode = 200, body = b3, mockErr = None\<rparr>],
                 index = 0\<rparr>"
  shows "\<exists>t' l'. Client_Do sel cl c req (t, l, m)
     = Some ((Some \<lparr>StatusCode = 200, Body = b3, closed = False\<rparr>, None),
             (t', l', m\<lparr>attempts := Some 3, index := 3\<rparr>))"
proof -
  let ?fn = "attemptFn sel cl c req"
  let ?r = "retryer cl"
  let ?n = "maxRetries ?r + 1"
  note b = budget_facts [OF budget]
  from attemptFn_mock [OF never http limits, of m sel req t None]
  obtain t1 l1 where
    a1: "?fn (t, \<lparr>resp = None, limiter = l, tstate = m\<rparr>)
       = Some ((True, None), (t1, \<lparr>resp = Some \<lparr>StatusCode = 500, Body = b1, closed = True\<rparr>,
            limiter = l1, tstate = m\<lparr>attempts := Some 1, index := 1\<rparr>\<rparr>))"
    and l1: "0 < sint (requestsPerSecond l1)" "0 < sint (requestsPerMinute l1)"
      "0 < sint (requestsPerHour l1)"
    by (auto simp: m statuses)
  let ?m1 = "m\<lparr>attempts := Some 1, index := 1\<rparr>"
  have a2: "\<exists>t2 l2. ?fn (T1, \<lparr>resp = Some \<lparr>StatusCode = 500, Body = b1, closed = True\<rparr>,
            limiter = l1, tstate = ?m1\<rparr>)
       = Some ((True, None), (t2, \<lparr>resp = Some \<lparr>StatusCode = 500, Body = b2, closed = True\<rparr>,
            limiter = l2, tstate = m\<lparr>attempts := Some 2, index := 2\<rparr>\<rparr>)) \<and>
       0 < sint (requestsPerSecond l2) \<and> 0 < sint (requestsPerMinute l2) \<and>
       0 < sint (requestsPerHour l2)" for T1
    using attemptFn_mock [OF never http l1, of ?m1 sel req T1 "Some \<lparr>StatusCode = 500, Body = b1, closed = True\<rparr>"]
    by (auto simp: m statuses)
  let ?m2 = "m\<lparr>attempts := Some 2, index := 2\<rparr>"
  have a3: "\<exists>t3 l3. ?fn (T2, \<lparr>resp = Some \<lparr>StatusCode = 500, Body = b2, closed = True\<rparr>,
            limiter = l2, tstate = ?m2\<rparr>)
       = Some ((False, None), (t3, \<lparr>resp = Some \<lparr>StatusCode = 200, Body = b3, closed = False\<rparr>,
            limiter = l3, tstate = m\<lparr>attempts := Some 3, index := 3\<rparr>\<rparr>))"
    if "0 < sint (requestsPerSecond l2)" "0 < sint (requestsPerMinute l2)"
      "0 < sint (requestsPerHour l2)" for T2 l2
    using attemptFn_mock [OF never http that, of ?m2 sel req T2 "Some \<lparr>StatusCode = 500, Body = b2, closed = True\<rparr>"]
    by (auto simp: m statuses)
  from Do_loop_retry_step [where fn = ?fn and sel = sel and lastErr = None, OF never b(1) b(4) a1] obtain T1 where
    s1: "Do_loop sel ?r c ?fn ?n 0 None (t, \<lparr>resp = None, limiter = l, tstate = m\<rparr>)
       = Do_loop sel ?r c ?fn ?n 1 None (T1, \<lparr>resp = Some \<lparr>StatusCode = 500, Body = b1, closed = True\<rparr>,
            limiter = l1, tstate = ?m1\<rparr>)"
    by auto
  from a2 [of T1] obtain t2 l2 where
    a2': "?fn (T1, \<lparr>resp = Some \<lparr>StatusCode = 500, Body = b1, closed = True\<rparr>,
            limiter = l1, tstate = ?m1\<rparr>)
       = Some ((True, None), (t2, \<lparr>resp = Some \<lparr>StatusCode = 500, Body = b2, closed = True\<rparr>,
            limiter = l2, tstate = ?m2\<rparr>))"
    and l2: "0 < sint (requestsPerSecond l2)" "0 < sint (requestsPerMinute l2)"
      "0 < sint (requestsPerHour l2)"
    by blast
  from Do_loop_retry_step [where fn = ?fn and sel = sel and lastErr = None, OF never b(2) b(5) a2'] obtain T2 where
    s2: "Do_loop sel ?r c ?fn ?n 1 None (T1, \<lparr>resp = Some \<lparr>StatusCode = 500, Body = b1, closed = True\<rparr>,
            limiter = l1, tstate = ?m1\<rparr>)
       = Do_loop sel ?r c ?fn ?n 2 None (T2, \<lparr>resp = Some \<lparr>StatusCode = 500, Body = b2, closed = True\<rparr>,
            limiter = l2, tstate = ?m2\<rparr>)"
    by auto
  from a3 [OF l2, of T2] obtain t3 l3 where
    a3': "?fn (T2, \<lparr>resp = Some \<lparr>StatusCode = 500, Body = b2, closed = True\<rparr>,
            limiter = l2, tstate = ?m2\<rparr>)
       = Some ((False, None), (t3, \<lparr>resp = Some \<lparr>StatusCode = 200, Body = b3, closed = False\<rparr>,
            limiter = l3, tstate = m\<lparr>attempts := Some 3, index := 3\<rparr>\<rparr>))"
    by blast
  have s3: "Do_loop sel ?r c ?fn ?n 2 None (T2, \<lparr>resp = Some \<lparr>StatusCode = 500, Body = b2, closed = True\<rparr>,
            limiter = l2, tstate = ?m2\<rparr>)
       = Some (None, (t3, \<lparr>resp = Some \<lparr>StatusCode = 200, Body = b3, closed = False\<rparr>,
            limiter = l3, tstate = m\<lparr>attempts := Some 3, index := 3\<rparr>\<rparr>))"
    by (rule Do_loop_stop_step [where fn = ?fn, OF never b(3) a3'])
  have "Client_Do sel cl c req (t, l, m)
     = Some ((Some \<lparr>StatusCode = 200, Body = b3, closed = False\<rparr>, None),
             (t3, l3, m\<lparr>attempts := Some 3, index := 3\<rparr>))"
    using s1 s2 s3 by (simp add: Client_Do_def Do_def)
  then show ?thesis
    by blast
qed

lemma status_retry_500_500_200_run:
  "doneAt Background = None \<and>
   (2 :: uint) \<le> 3 \<and> (3 :: uint) \<noteq> - 1 \<and>
   0 < sint (100 :: goint) \<and> 0 < sint (1000 :: goint) \<and> 0 < sint (10000 :: goint) \<and>
   (\<exists>t' l'.
      Client_Do (\<lambda>_. True)
        (fst (NewClient mockClient
           \<lparr>RequestsPerSecond = 100, RequestsPerMinute = 1000, RequestsPerHour = 10000\<rparr>
           \<lparr>MaxRetries = 3, BaseDelay = 10 * Millisecond, MaxDelay = 100 * Millisecond,
             RetryOnStatus = [500, 502]\<rparr> 0))
        Background ()
        (0, NewRateLimiter 100 1000 10000 0,
         \<lparr>attempts = Some 0,
           responses = [\<lparr>statusCode = 500, body = ''Error'', mockErr = None\<rparr>,
                        \<lparr>statusCode = 500, body = ''Error'', mockErr = None\<rparr>,
                        \<lparr>statusCode = 200, body = ''Success'', mockErr = None\<rparr>],
           index = 0\<rparr>)
      = Some ((Some \<lparr>StatusCode = 200, Body = ''Success'', closed = False\<rparr>, None),
              (t', l',
               \<lparr>attempts = Some 3,
                 responses = [\<lparr>statusCode = 500, body = ''Error'', mockErr = None\<rparr>,
                              \<lparr>statusCode = 500, body = ''Error'', mockErr = None\<rparr>,
                              \<lparr>statusCode = 200, body = ''Success'', mockErr = None\<rparr>],
                 index = 3\<rparr>)))"
proof -
  let ?cl = "fst (NewClient mockClient
           \<lparr>RequestsPerSecond = 100, RequestsPerMinute = 1000, RequestsPerHour = 10000\<rparr>
           \<lparr>MaxRetries = 3, BaseDelay = 10 * Millisecond, MaxDelay = 100 * Millisecond,
             RetryOnStatus = [500, 502]\<rparr> 0) :: (unit, mockTransport) Client"
  have never: "doneAt Background = None"
    by (simp add: Background_def)
  have budget: "2 \<le> maxRetries (retryer ?cl)" "maxRetries (retryer ?cl) \<noteq> - 1"
    by (simp_all add: NewClient_def NewRetryer_def)
  have limits: "0 < sint (requestsPerSecond (NewRateLimiter 100 1000 10000 0))"
    "0 < sint (requestsPerMinute (NewRateLimiter 100 1000 10000 0))"
    "0 < sint (requestsPerHour (NewRateLimiter 100 1000 10000 0))"
    by (simp_all add: NewRateLimiter_def)
  have http: "httpClient ?cl = mockClient"
    by (simp add: NewClient_def)
  have statuses: "retryOnStatus ?cl = [500, 502]"
    by (simp add: NewClient_def)
  from status_retry_500_500_200 [OF never budget limits http statuses refl,
      of "\<lambda>_. True" "()" 0 "''Error''" "''Error''" "''Success''"] never
  show ?thesis
    by simp
qed

section \<open>The packages' tests, evaluated\<close>

text \<open>
  The model run on the inputs of the repository's tests gives what the tests assert:
  the backoff table, the three calls and the last error when retries run out, the
  cancellation before the first attempt, the second \<open>Wait\<close> on a limiter of 1 that ends at
  its deadline, and the client with ceilings of 0.
\<close>

lemma TestRetryer_CalculateBackoff:
  "map (\<lambda>k. sint (calculateBackoff (NewRetryer 5 (100 * Millisecond) Second) k)) [0, 1, 2, 3, 4, 5]
     = [100000000, 200000000, 400000000, 800000000, 1000000000, 1000000000]"
  by (simp add: calculateBackoff_def NewRetryer_def Millisecond_def Second_def)

lemma TestRetryer_CalculateBackoff_ZeroBaseDelay:
  "calculateBackoff (NewRetryer 3 0 Second) 2 = 0"
  by (simp add: calculateBackoff_def NewRetryer_def Second_def)

lemma TestRetryer_Do_MaxRetriesExceeded:
  "Do sel (NewRetryer 2 (10 * Millisecond) Second) Background
      (traced (\<lambda>s. Some ((True, Some (Failure ''persistent error'')), s))) (0, ([], ()))
     = Some (Some (Failure ''persistent error''),
         (30000000,
          ([(True, Some (Failure ''persistent error'')), (True, Some (Failure ''persistent error'')),
            (True, Some (Failure ''persistent error''))], ())))"
  by (simp add: run_defs traced_def)

lemma TestRetryer_Do_ContextCancelledBeforeFirstAttempt:
  "Do sel (NewRetryer 3 (100 * Millisecond) Second) \<lparr>doneAt = Some 0, cerr = Canceled\<rparr>
      (traced (\<lambda>s. Some ((True, Some (Failure ''should not be called'')), s))) (0, ([], ()))
     = Some (Some Canceled, (0, ([], ())))"
  by (simp add: run_defs traced_def)

lemma TestRateLimiter_MinimalLimits:
  "Waits sel (NewRateLimiter 1 1 1 0) [(Background, 0)] = Some (increment (NewRateLimiter 1 1 1 0)) \<and>
   Wait sel \<lparr>doneAt = Some 100000000, cerr = DeadlineExceeded\<rparr> (0, increment (NewRateLimiter 1 1 1 0))
     = Some (Some DeadlineExceeded, (100000000, increment (NewRateLimiter 1 1 1 0)))"
  by (simp add: run_defs)

lemma TestClient_Do_RateLimitError:
  "Client_Do sel
     (fst (NewClient mockClient
        \<lparr>RequestsPerSecond = 0, RequestsPerMinute = 0, RequestsPerHour = 0\<rparr>
        \<lparr>MaxRetries = 3, BaseDelay = 10 * Millisecond, MaxDelay = 100 * Millisecond,
          RetryOnStatus = []\<rparr> 0))
     \<lparr>doneAt = Some 50000000, cerr = DeadlineExceeded\<rparr> ()
     (0, NewRateLimiter 0 0 0 0,
      \<lparr>attempts = Some 0,
        responses = [\<lparr>statusCode = 200, body = ''OK'', mockErr = None\<rparr>],
        index = 0\<rparr>)
   = Some ((None, Some DeadlineExceeded),
           (50000000, NewRateLimiter 0 0 0 0,
            \<lparr>attempts = Some 0,
              responses = [\<lparr>statusCode = 200, body = ''OK'', mockErr = None\<rparr>],
              index = 0\<rparr>))"
  by (simp add: run_defs)

section \<open>The claims\<close>

subsection \<open>Retryer\<close>

text \<open>
  Claim C1. With \<open>maxRetries = R\<close>, a context that is never cancelled and an attempt
  function that always reports \<open>shouldRetry = true\<close>, \<open>Do\<close> is to call the function \<open>R + 1\<close>
  times and return the error of the last call. The loop bound \<open>r.maxRetries + 1\<close> is
  computed in \<open>uint\<close>: for \<open>R = math.MaxUint64\<close> it is 0, the loop body never runs, and
  \<open>Do\<close> returns \<open>nil\<close> with no call made (the log of calls stays empty), although every call
  would have reported the error \<open>persistent error\<close>. For every other \<open>R\<close> the claim holds,
  which is lemma \<open>Do_always_retry\<close>.
\<close>

theorem Do_maxuint_calls_nothing:
  "Do sel (NewRetryer 18446744073709551615 bd md) Background
      (traced (\<lambda>s. Some ((True, Some (Failure ''persistent error'')), s))) (t, ([], u))
     = Some (None, (t, ([], u)))"
  by (simp add: Do_def NewRetryer_def Do_loop.simps)

text \<open>
  Claim C2. The delay before the next attempt is to be \<open>min (baseDelay * 2 ^ k) maxDelay\<close>
  for every attempt index \<open>k\<close> and every configuration. With \<open>baseDelay\<close> 100 ms and
  \<open>maxDelay\<close> 1 s, the \<open>int64\<close> product at \<open>k = 37\<close> passes \<open>2 ^ 63\<close> and wraps:
  \<open>calculateBackoff\<close> returns a negative duration, on which \<open>time.After\<close> fires at once,
  where the formula gives 1 s. Where the product fits \<open>int64\<close> the formula holds
  (\<open>calculateBackoff_exact\<close>), and a zero base gives \<open>min 0 maxDelay\<close>
  (\<open>calculateBackoff_zero_base\<close>).
\<close>

theorem calculateBackoff_overflows:
  "sint (calculateBackoff (NewRetryer 40 (100 * Millisecond) Second) 37) = - 4702848726509551616 \<and>
   min (sint (100 * Millisecond) * 2 ^ 37) (sint Second) = 1000000000"
  by (simp add: calculateBackoff_def NewRetryer_def Millisecond_def Second_def)

text \<open>
  Claim C8. When the cancellation signal has fired before \<open>Do\<close> starts, \<open>Do\<close> is to return
  the cancellation error without calling the attempt function. The check stands inside
  the loop body, and for \<open>maxRetries = math.MaxUint64\<close> the body never runs (the bound
  wraps to 0, as for C1): with a context cancelled before the call, \<open>ctx.Err()\<close> is
  \<open>Canceled\<close> and \<open>Do\<close> returns \<open>nil\<close>. For every other \<open>maxRetries\<close> the
  claim holds at the top of every iteration (\<open>Do_loop_cancelled\<close>, \<open>Do_cancelled\<close>).
\<close>

theorem Do_maxuint_ignores_cancellation:
  "ctx_Err \<lparr>doneAt = Some (t - 1), cerr = Canceled\<rparr> t = Some Canceled \<and>
   Do sel (NewRetryer 18446744073709551615 bd md) \<lparr>doneAt = Some (t - 1), cerr = Canceled\<rparr>
      (traced fn) (t, ([], u))
     = Some (None, (t, ([], u)))"
  by (simp add: Do_def NewRetryer_def Do_loop.simps ctx_Err_def)

subsection \<open>RateLimiter\<close>

text \<open>
  Claim C4. Take a limiter with non-negative ceilings, as built by \<open>NewRateLimiter\<close>, and
  run any sequence of \<open>Wait\<close> calls on it, one after the other, whatever their contexts
  and the clock at each call. In the limiter \<open>r\<close> they leave, every window's count is at
  most its ceiling, before and after a pending reset is applied, and the ceilings are the
  configured ones. Any further \<open>Wait\<close> that returns \<open>nil\<close> was admitted in a limiter \<open>r1\<close>
  (\<open>r\<close> with its pending resets applied) in which all three counts were below their
  ceilings at once, and it leaves each of the three counts exactly one higher than in \<open>r1\<close>.
\<close>

theorem RateLimiter_counts_within_limits:
  assumes "0 \<le> sint rps" and "0 \<le> sint rpm" and "0 \<le> sint rph"
    and "Waits sel (NewRateLimiter rps rpm rph t0) calls = Some r"
  shows "withinLimits r \<and> withinLimits (resetIfNeeded now r) \<and>
    requestsPerSecond r = rps \<and> requestsPerMinute r = rpm \<and> requestsPerHour r = rph \<and>
    (\<forall>c t t' r'. Wait sel c (t, r) = Some (None, (t', r')) \<longrightarrow>
       (\<exists>r1. polled r r1 \<and>
          sint (secCount r1) < sint rps \<and> sint (minCount r1) < sint rpm \<and>
          sint (hrCount r1) < sint rph \<and>
          r' = increment r1 \<and>
          sint (secCount r') = sint (secCount r1) + 1 \<and>
          sint (minCount r') = sint (minCount r1) + 1 \<and>
          sint (hrCount r') = sint (hrCount r1) + 1))"
proof -
  have u0: "usable (NewRateLimiter rps rpm rph t0)"
    using assms(1-3) by (rule usable_New)
  from Waits_usable [OF assms(4) u0]
  have u: "usable r" and lim: "requestsPerSecond r = rps" "requestsPerMinute r = rpm"
    "requestsPerHour r = rph"
    by (simp_all add: NewRateLimiter_def)
  have "usable (resetIfNeeded now r)"
    using u by (rule usable_reset)
  moreover have "\<exists>r1. polled r r1 \<and>
          sint (secCount r1) < sint rps \<and> sint (minCount r1) < sint rpm \<and>
          sint (hrCount r1) < sint rph \<and>
          r' = increment r1 \<and>
          sint (secCount r') = sint (secCount r1) + 1 \<and>
          sint (minCount r') = sint (minCount r1) + 1 \<and>
          sint (hrCount r') = sint (hrCount r1) + 1"
    if "Wait sel c (t, r) = Some (None, (t', r'))" for c t t' r'
  proof -
    from Wait_admitted [OF that] obtain r1 where p: "polled r r1"
      and lt: "sint (secCount r1) < sint (requestsPerSecond r1)"
        "sint (minCount r1) < sint (requestsPerMinute r1)"
        "sint (hrCount r1) < sint (requestsPerHour r1)"
      and r': "r' = increment r1"
      by blast
    from polled_limits [OF p] lim lt increment_exact [OF lt] p r' show ?thesis
      by auto
  qed
  ultimately show ?thesis
    using u lim by (simp add: usable_def)
qed

theorem RateLimiter_counts_within_limits_witness:
  "Waits (\<lambda>_. True) (NewRateLimiter 2 100 1000 0)
     [(\<lparr>doneAt = None, cerr = Canceled\<rparr>, 10), (\<lparr>doneAt = None, cerr = Canceled\<rparr>, 20)]
   = Some \<lparr>secCount = 2, minCount = 2, hrCount = 2,
      secReset = 1000000000, minReset = 60000000000, hrReset = 3600000000000,
      requestsPerSecond = 2, requestsPerMinute = 100, requestsPerHour = 1000\<rparr> \<and>
   withinLimits \<lparr>secCount = 2, minCount = 2, hrCount = 2,
      secReset = 1000000000, minReset = 60000000000, hrReset = 3600000000000,
      requestsPerSecond = 2, requestsPerMinute = 100, requestsPerHour = 1000\<rparr>"
proof -
  have run: "Waits (\<lambda>_. True) (NewRateLimiter 2 100 1000 0)
     [(\<lparr>doneAt = None, cerr = Canceled\<rparr>, 10), (\<lparr>doneAt = None, cerr = Canceled\<rparr>, 20)]
   = Some \<lparr>secCount = 2, minCount = 2, hrCount = 2,
      secReset = 1000000000, minReset = 60000000000, hrReset = 3600000000000,
      requestsPerSecond = 2, requestsPerMinute = 100, requestsPerHour = 1000\<rparr>"
    by (simp add: Wait_unfold ctx_Err_def canProceed_def resetIfNeeded_def After_def Add_def
      Second_def Minute_def Hour_def NewRateLimiter_def increment_def Let_def)
  have "0 \<le> sint (2 :: goint)" "0 \<le> sint (100 :: goint)" "0 \<le> sint (1000 :: goint)"
    by simp_all
  from RateLimiter_counts_within_limits [OF this run] run show ?thesis
    by simp
qed

text \<open>
  Claim C5. No interleaving of concurrent \<open>Wait\<close> calls is to admit more requests in a
  window than its ceiling, the admission test and the increments being one step under the
  lock. In the code they are two steps, each under the lock, with the lock free in
  between. Two goroutines on a fresh limiter with all ceilings 1: both call \<open>canProceed\<close>
  and see \<open>true\<close> before either calls \<open>increment\<close>; both return \<open>nil\<close>, and every count
  is 2 against a ceiling of 1.
\<close>

theorem interleaved_waits_over_admit:
  "interleave [(1, 0), (2, 1), (3, 0), (4, 1)] (NewRateLimiter 1 1 1 0, [AtCanProceed, AtCanProceed])
     = (\<lparr>secCount = 2, minCount = 2, hrCount = 2,
         secReset = 1000000000, minReset = 60000000000, hrReset = 3600000000000,
         requestsPerSecond = 1, requestsPerMinute = 1, requestsPerHour = 1\<rparr>,
        [Returned, Returned])"
  by (simp add: interleave_def gstep_def canProceed_def resetIfNeeded_def After_def Add_def
      Second_def Minute_def Hour_def NewRateLimiter_def increment_def Let_def)

text \<open>
  Claim C6. For every context and every limiter state, the error \<open>Wait\<close> returns is \<open>nil\<close>
  or the error of the context, which \<open>ctx.Err()\<close> reports at the instant of the return;
  the code has no other error to give. And \<open>Wait\<close> does return whenever the context is
  cancelled at some instant or all three ceilings are positive.
\<close>

theorem Wait_returns_nil_or_cancellation:
  "(Wait sel c (t, r) = Some (e, s') \<longrightarrow>
      e = None \<or> e = Some (cerr c) \<and> ctx_Err c (fst s') = Some (cerr c)) \<and>
   (doneAt c \<noteq> None \<or>
    0 < sint (requestsPerSecond r) \<and> 0 < sint (requestsPerMinute r) \<and> 0 < sint (requestsPerHour r)
      \<longrightarrow> (\<exists>res. Wait sel c (t, r) = Some res))"
proof (intro conjI impI)
  assume "Wait sel c (t, r) = Some (e, s')"
  from Wait_cases [OF this] show "e = None \<or> e = Some (cerr c) \<and> ctx_Err c (fst s') = Some (cerr c)"
    by auto
next
  assume live: "doneAt c \<noteq> None \<or>
    0 < sint (requestsPerSecond r) \<and> 0 < sint (requestsPerMinute r) \<and> 0 < sint (requestsPerHour r)"
  show "\<exists>res. Wait sel c (t, r) = Some res"
  proof (cases "doneAt c")
    case (Some f)
    then show ?thesis
      by (rule Wait_returns_when_cancelled)
  next
    case None
    with live show ?thesis
      by (intro Wait_returns_with_capacity) simp_all
  qed
qed

theorem Wait_returns_nil_or_cancellation_witness:
  "Wait (\<lambda>_. True) \<lparr>doneAt = Some 50, cerr = DeadlineExceeded\<rparr> (0, NewRateLimiter 0 0 0 0)
     = Some (Some DeadlineExceeded, (50, NewRateLimiter 0 0 0 0)) \<and>
   doneAt \<lparr>doneAt = Some 50, cerr = DeadlineExceeded\<rparr> \<noteq> None \<and>
   ctx_Err \<lparr>doneAt = Some 50, cerr = DeadlineExceeded\<rparr> 50 = Some DeadlineExceeded"
  using Wait_returns_nil_or_cancellation [of "\<lambda>_. True" "\<lparr>doneAt = Some 50, cerr = DeadlineExceeded\<rparr>"
      0 "NewRateLimiter 0 0 0 0" "Some DeadlineExceeded" "(50, NewRateLimiter 0 0 0 0)"]
  by (simp add: Wait_unfold ctx_Err_def canProceed_def resetIfNeeded_def After_def Add_def
      Second_def Minute_def Hour_def NewRateLimiter_def Let_def select_after_def Millisecond_def)

subsection \<open>ResilientClient\<close>

text \<open>
  Claim C3. Take a client whose transport is recorded in a log. First part: whenever \<open>Do\<close>
  returns with all \<open>maxRetries + 1\<close> attempts used up (the log holds \<open>maxRetries + 1\<close>
  transport calls) and the last call was answered by a response of a listed status, \<open>Do\<close>
  returns that last response (its body closed, see C10) and a \<open>nil\<close> error; this holds
  for every context, limiter and transport. Second part: this does happen. With a
  context that is never cancelled, positive ceilings, \<open>maxRetries\<close> below
  \<open>math.MaxUint64\<close> and a transport that always answers with a listed status, \<open>Do\<close>
  returns after exactly \<open>maxRetries + 1\<close> transport calls, with the last response and
  a \<open>nil\<close> error.
\<close>

theorem retry_exhaustion_returns_last_response:
  fixes cl :: "('q, roundtrip list \<times> 't) Client"
  assumes "httpClient cl = recorded tr"
  shows "(Client_Do sel cl c req (t, l, ([], ts)) = Some ((rp, e), (t', l', (log, ts'))) \<and>
       length log = unat (maxRetries (retryer cl)) + 1 \<and> last log = Responded rsp \<and>
       statusListed (StatusCode rsp) (retryOnStatus cl)
      \<longrightarrow> e = None \<and> rp = Some (rsp\<lparr>closed := True\<rparr>)) \<and>
     (doneAt c = None \<and> maxRetries (retryer cl) \<noteq> - 1 \<and>
       0 < sint (requestsPerSecond l) \<and> 0 < sint (requestsPerMinute l) \<and>
       0 < sint (requestsPerHour l) \<and>
       (\<forall>q s. \<exists>x s'. tr q s = (Responded x, s') \<and> statusListed (StatusCode x) (retryOnStatus cl))
      \<longrightarrow> (\<exists>x t1 l1 log1 ts1.
            Client_Do sel cl c req (t, l, ([], ts))
              = Some ((Some (x\<lparr>closed := True\<rparr>), None), (t1, l1, (log1, ts1))) \<and>
            length log1 = unat (maxRetries (retryer cl)) + 1 \<and> last log1 = Responded x))"
proof (intro conjI impI)
  assume "Client_Do sel cl c req (t, l, ([], ts)) = Some ((rp, e), (t', l', (log, ts'))) \<and>
       length log = unat (maxRetries (retryer cl)) + 1 \<and> last log = Responded rsp \<and>
       statusListed (StatusCode rsp) (retryOnStatus cl)"
  then have "e = None \<and> rp = Some (rsp\<lparr>closed := True\<rparr>)"
    using exhaustion_result [OF assms, of sel c req t l ts rp e t' l' log ts' rsp] by blast
  then show "e = None" and "rp = Some (rsp\<lparr>closed := True\<rparr>)"
    by simp_all
next
  assume env: "doneAt c = None \<and> maxRetries (retryer cl) \<noteq> - 1 \<and>
       0 < sint (requestsPerSecond l) \<and> 0 < sint (requestsPerMinute l) \<and>
       0 < sint (requestsPerHour l) \<and>
       (\<forall>q s. \<exists>x s'. tr q s = (Responded x, s') \<and> statusListed (StatusCode x) (retryOnStatus cl))"
  then have "\<exists>x s'. tr q s = (Responded x, s') \<and> statusListed (StatusCode x) (retryOnStatus cl)"
    for q s
    by blast
  with env show "\<exists>x t1 l1 log1 ts1.
            Client_Do sel cl c req (t, l, ([], ts))
              = Some ((Some (x\<lparr>closed := True\<rparr>), None), (t1, l1, (log1, ts1))) \<and>
            length log1 = unat (maxRetries (retryer cl)) + 1 \<and> last log1 = Responded x"
    by (intro exhaustion_happens [OF _ _ _ _ _ assms]) simp_all
qed

theorem retry_exhaustion_returns_last_response_witness:
  "Client_Do (\<lambda>_. True)
     \<lparr>httpClient = recorded (\<lambda>(req :: unit) (s :: instant \<times> unit).
          (Responded \<lparr>StatusCode = 500, Body = ''Error'', closed = False\<rparr>, s)),
       retryer = NewRetryer 2 (10 * Millisecond) (100 * Millisecond),
       retryOnStatus = [500]\<rparr>
     Background () (0, NewRateLimiter 100 1000 10000 0, ([], ()))
   = Some ((Some \<lparr>StatusCode = 500, Body = ''Error'', closed = True\<rparr>, None),
           (30000000,
            \<lparr>secCount = 3, minCount = 3, hrCount = 3,
              secReset = 1000000000, minReset = 60000000000, hrReset = 3600000000000,
              requestsPerSecond = 100, requestsPerMinute = 1000, requestsPerHour = 10000\<rparr>,
            ([Responded \<lparr>StatusCode = 500, Body = ''Error'', closed = False\<rparr>,
              Responded \<lparr>StatusCode = 500, Body = ''Error'', closed = False\<rparr>,
              Responded \<lparr>StatusCode = 500, Body = ''Error'', closed = False\<rparr>], ()))) \<and>
   unat (maxRetries (NewRetryer 2 (10 * Millisecond) (100 * Millisecond))) + 1 = 3 \<and>
   statusListed (StatusCode \<lparr>StatusCode = 500, Body = ''Error'', closed = False\<rparr>) [500] \<and>
   doneAt Background = None \<and>
   maxRetries (NewRetryer 2 (10 * Millisecond) (100 * Millisecond)) \<noteq> - 1 \<and>
   0 < sint (requestsPerSecond (NewRateLimiter 100 1000 10000 0)) \<and>
   0 < sint (requestsPerMinute (NewRateLimiter 100 1000 10000 0)) \<and>
   0 < sint (requestsPerHour (NewRateLimiter 100 1000 10000 0))"
proof -
  let ?tr = "\<lambda>(req :: unit) (s :: instant \<times> unit).
    (Responded \<lparr>StatusCode = 500, Body = ''Error'', closed = False\<rparr>, s)"
  let ?cl = "\<lparr>httpClient = recorded ?tr,
          retryer = NewRetryer 2 (10 * Millisecond) (100 * Millisecond),
          retryOnStatus = [500]\<rparr>"
  have http: "httpClient ?cl = recorded ?tr"
    by simp
  have run: "Client_Do (\<lambda>_. True) ?cl Background () (0, NewRateLimiter 100 1000 10000 0, ([], ()))
   = Some ((Some \<lparr>StatusCode = 500, Body = ''Error'', closed = True\<rparr>, None),
           (30000000,
            \<lparr>secCount = 3, minCount = 3, hrCount = 3,
              secReset = 1000000000, minReset = 60000000000, hrReset = 3600000000000,
              requestsPerSecond = 100, requestsPerMinute = 1000, requestsPerHour = 10000\<rparr>,
            ([Responded \<lparr>StatusCode = 500, Body = ''Error'', closed = False\<rparr>,
              Responded \<lparr>StatusCode = 500, Body = ''Error'', closed = False\<rparr>,
              Responded \<lparr>StatusCode = 500, Body = ''Error'', closed = False\<rparr>], ())))"
    by (simp add: run_defs)
  from retry_exhaustion_returns_last_response [OF http, of "\<lambda>_. True" Background "()" 0
      "NewRateLimiter 100 1000 10000 0" "()"] run
  show ?thesis
    by (simp add: NewRetryer_def NewRateLimiter_def Background_def)
qed

text \<open>
  Claim C7. A client whose ceilings are all 0, called with a context that carries a
  deadline, is to return the deadline-exceeded error without a transport call. With
  \<open>maxRetries = math.MaxUint64\<close> the retry loop runs no iteration (the bound wraps to 0,
  as for C1): the limiter is never asked, and \<open>Do\<close> returns a \<open>nil\<close> response and a \<open>nil\<close>
  error at once. For every other \<open>maxRetries\<close> the claim holds: the call returns the
  context's error, the closure reports \<open>shouldRetry = false\<close>, and the transport is left
  untouched (\<open>Client_Do_rate_limited\<close>).
\<close>

theorem Client_Do_maxuint_zero_limits:
  "Client_Do sel
      \<lparr>httpClient = recorded tr, retryer = NewRetryer 18446744073709551615 bd md, retryOnStatus = st\<rparr>
      \<lparr>doneAt = Some f, cerr = DeadlineExceeded\<rparr> req (t, NewRateLimiter 0 0 0 t0, ([], ts))
     = Some ((None, None), (t, NewRateLimiter 0 0 0 t0, ([], ts)))"
  by (simp add: Client_Do_def Do_def NewRetryer_def Do_loop.simps)

text \<open>
  Claim C9. With retryable statuses 500 and 502 and a sufficient retry budget, against the
  mock transport answering 500, 500, 200, \<open>Do\<close> is to make exactly 3 transport calls and
  return the 200 response with a \<open>nil\<close> error. \<open>MaxRetries = math.MaxUint64\<close> is a budget
  of at least 2, and there the retry loop runs no iteration (the bound wraps to 0, as
  for C1): with the limiter of the test and a context that is never cancelled, \<open>Do\<close>
  returns a \<open>nil\<close> response and a \<open>nil\<close> error at once, and the transport's call counter
  stays at 0. For every budget from 2 up to, but not including, \<open>math.MaxUint64\<close> the
  claim holds (\<open>status_retry_500_500_200\<close>).
\<close>

theorem Client_Do_maxuint_500_500_200:
  "(2 :: uint) \<le> 18446744073709551615 \<and>
   Client_Do sel
     (fst (NewClient mockClient
        \<lparr>RequestsPerSecond = 100, RequestsPerMinute = 1000, RequestsPerHour = 10000\<rparr>
        \<lparr>MaxRetries = 18446744073709551615, BaseDelay = 10 * Millisecond,
          MaxDelay = 100 * Millisecond, RetryOnStatus = [500, 502]\<rparr> 0))
     Background req
     (0, NewRateLimiter 100 1000 10000 0,
      \<lparr>attempts = Some 0,
        responses = [\<lparr>statusCode = 500, body = ''Error'', mockErr = None\<rparr>,
                     \<lparr>statusCode = 500, body = ''Error'', mockErr = None\<rparr>,
                     \<lparr>statusCode = 200, body = ''Success'', mockErr = None\<rparr>],
        index = 0\<rparr>)
   = Some ((None, None),
           (0, NewRateLimiter 100 1000 10000 0,
            \<lparr>attempts = Some 0,
              responses = [\<lparr>statusCode = 500, body = ''Error'', mockErr = None\<rparr>,
                           \<lparr>statusCode = 500, body = ''Error'', mockErr = None\<rparr>,
                           \<lparr>statusCode = 200, body = ''Success'', mockErr = None\<rparr>],
              index = 0\<rparr>))"
  by (simp add: Client_Do_def Do_def NewClient_def NewRetryer_def Do_loop.simps)

text \<open>
  Claim C10. Whenever \<open>Do\<close> returns a response with a \<open>nil\<close> error and the status of that
  response is in the retryable list (the retries ran out on a retryable status), the body
  of the response has been closed.
\<close>

theorem exhausted_response_is_closed:
  fixes cl :: "('q, 't) Client"
  assumes "Client_Do sel cl c req s = Some ((Some rsp, None), s')"
    and "statusListed (StatusCode rsp) (retryOnStatus cl)"
  shows "closed rsp"
proof -
  obtain t l ts where s: "s = (t, l, ts)"
    by (cases s)
  define Q where "Q = (\<lambda>(e :: error option) (u :: 't closure).
     e = None \<longrightarrow> (\<forall>x. resp u = Some x \<longrightarrow> statusListed (StatusCode x) (retryOnStatus cl) \<longrightarrow> closed x))"
  from assms(1) obtain t' st where
    run: "Do_loop sel (retryer cl) c (attemptFn sel cl c req) (maxRetries (retryer cl) + 1) 0 None
            (t, \<lparr>resp = None, limiter = l, tstate = ts\<rparr>) = Some (None, (t', st))"
    and r: "resp st = Some rsp"
    by (auto simp: Client_Do_def Do_def s split: option.splits)
  have "Q None (snd (t', st))"
  proof (rule Do_loop_post [where Q = Q, OF _ _ _ run])
    show "Q e (snd s')" if "attemptFn sel cl c req s = Some ((b, e), s')" for s b e s'
      using that attemptFn_closes [of sel cl c req s b s'] by (auto simp: Q_def)
    show "Q (Some (cerr c)) u" for u
      by (simp add: Q_def)
    show "Q None (snd (t, \<lparr>resp = None, limiter = l, tstate = ts\<rparr>))"
      by (simp add: Q_def)
  qed
  with r assms(2) show ?thesis
    by (simp add: Q_def)
qed

theorem exhausted_response_is_closed_witness:
  "Client_Do (\<lambda>_. True)
     (fst (NewClient mockClient
        \<lparr>RequestsPerSecond = 100, RequestsPerMinute = 1000, RequestsPerHour = 10000\<rparr>
        \<lparr>MaxRetries = 2, BaseDelay = 10 * Millisecond, MaxDelay = 100 * Millisecond,
          RetryOnStatus = [500]\<rparr> 0))
     Background ()
     (0, NewRateLimiter 100 1000 10000 0,
      \<lparr>attempts = Some 0,
        responses = [\<lparr>statusCode = 500, body = ''Error'', mockErr = None\<rparr>,
                     \<lparr>statusCode = 500, body = ''Error'', mockErr = None\<rparr>,
                     \<lparr>statusCode = 500, body = ''Error'', mockErr = None\<rparr>],
        index = 0\<rparr>)
   = Some ((Some \<lparr>StatusCode = 500, Body = ''Error'', closed = True\<rparr>, None),
           (30000000,
            \<lparr>secCount = 3, minCount = 3, hrCount = 3,
              secReset = 1000000000, minReset = 60000000000, hrReset = 3600000000000,
              requestsPerSecond = 100, requestsPerMinute = 1000, requestsPerHour = 10000\<rparr>,
            \<lparr>attempts = Some 3,
              responses = [\<lparr>statusCode = 500, body = ''Error'', mockErr = None\<rparr>,
                           \<lparr>statusCode = 500, body = ''Error'', mockErr = None\<rparr>,
                           \<lparr>statusCode = 500, body = ''Error'', mockErr = None\<rparr>],
              index = 3\<rparr>)) \<and>
   statusListed (StatusCode \<lparr>StatusCode = 500, Body = ''Error'', closed = True\<rparr>) [500] \<and>
   closed \<lparr>StatusCode = 500, Body = ''Error'', closed = True\<rparr>"
proof -
  let ?cl = "fst (NewClient mockClient
        \<lparr>RequestsPerSecond = 100, RequestsPerMinute = 1000, RequestsPerHour = 10000\<rparr>
        \<lparr>MaxRetries = 2, BaseDelay = 10 * Millisecond, MaxDelay = 100 * Millisecond,
          RetryOnStatus = [500]\<rparr> 0) :: (unit, mockTransport) Client"
  have listed: "statusListed (StatusCode \<lparr>StatusCode = 500, Body = ''Error'', closed = True\<rparr>)
      (retryOnStatus ?cl)"
    by (simp add: NewClient_def)
  from exhausted_response_is_closed [OF MaxRetriesExceeded_run listed] MaxRetriesExceeded_run
  show ?thesis
    by simp
qed

end
